theory Spec2Isabelle
  imports Complex_Main
begin

section \<open>AstroWebMaps: the planetary vector geometry engine\<close>

text \<open>
  A shallow embedding of \<^verbatim>\<open>Helpers/AstroGeometry.js\<close> and of the drawing code of
  \<^verbatim>\<open>Map/AstroVector.js\<close>. A JavaScript Number is modelled as a \<^typ>\<open>real\<close>: the
  arithmetic is exact, and rounding, overflow and NaN are outside the model unless a
  definition says otherwise; a call that never returns or that raises is a value of
  the result type. A WKT string is modelled by the geometry it denotes
  (type tag and coordinate lists); reading and writing WKT and the whitespace clean-up
  of \<^verbatim>\<open>cleanWkt\<close> are the identity on that value. A polygon has one ring: the source
  states that interior rings are not supported.
\<close>

subsection \<open>Data model\<close>

type_synonym pt = "real \<times> real"

datatype geometry =
    Point pt
  | MultiPoint "pt list"
  | LineString "pt list"
  | MultiLineString "pt list list"
  | Polygon "pt list"
  | MultiPolygon "pt list list"

datatype projection = Cylindrical | NorthPolar | SouthPolar

text \<open>All coordinates of a geometry, in the order in which they are written.\<close>

fun allPoints :: "geometry \<Rightarrow> pt list" where
  "allPoints (Point p) = [p]"
| "allPoints (MultiPoint ps) = ps"
| "allPoints (LineString ps) = ps"
| "allPoints (MultiLineString pss) = concat pss"
| "allPoints (Polygon ps) = ps"
| "allPoints (MultiPolygon pss) = concat pss"

text \<open>
  \<^verbatim>\<open>geometry.transform(src, dst)\<close> applies the coordinate function registered for the
  pair of projections to every coordinate and keeps the structure of the geometry.
\<close>

fun transform :: "(pt \<Rightarrow> pt) \<Rightarrow> geometry \<Rightarrow> geometry" where
  "transform f (Point p) = Point (f p)"
| "transform f (MultiPoint ps) = MultiPoint (map f ps)"
| "transform f (LineString ps) = LineString (map f ps)"
| "transform f (MultiLineString pss) = MultiLineString (map (map f) pss)"
| "transform f (Polygon ps) = Polygon (map f ps)"
| "transform f (MultiPolygon pss) = MultiPolygon (map (map f) pss)"

subsection \<open>Undangling\<close>

text \<open>
  \<^verbatim>\<open>x + 360\<close> and \<^verbatim>\<open>x - 360\<close> as the loops of \<^verbatim>\<open>transformDanglers\<close> compute them.
  The numbers of the source are doubles: below \<open>-2\<^sup>6\<^sup>2\<close> the neighbours of \<open>x\<close>
  are more than 720 apart and \<^verbatim>\<open>x + 360\<close> is \<open>x\<close> again, and likewise \<^verbatim>\<open>x - 360\<close>
  above \<open>2\<^sup>6\<^sup>2\<close>. Inside these bounds the sum is taken as the exact one, which up
  to a magnitude of \<open>2\<^sup>5\<^sup>3\<close> is the sum of the source but for the rounding of the
  last one.
\<close>

definition plus360 :: "real \<Rightarrow> real" where
  "plus360 x = (if x < - (2 ^ 62) then x else x + 360)"

definition minus360 :: "real \<Rightarrow> real" where
  "minus360 x = (if x > 2 ^ 62 then x else x - 360)"

text \<open>
  \<^verbatim>\<open>transformDanglers\<close>: \<^verbatim>\<open>while (x < 0) {x = x + 360;} while (x > 360) {x = x - 360;}\<close>.
  Each loop is a recursive function whose value is \<open>None\<close> when the loop never
  ends.
\<close>

partial_function (option) danglers_up :: "real \<Rightarrow> real option" where
  "danglers_up x = (if x < 0 then danglers_up (plus360 x) else Some x)"

partial_function (option) danglers_down :: "real \<Rightarrow> real option" where
  "danglers_down x = (if x > 360 then danglers_down (minus360 x) else Some x)"

definition transformDanglers :: "pt \<Rightarrow> pt option" where
  "transformDanglers point =
     (case danglers_up (fst point) of
        None \<Rightarrow> None
      | Some x \<Rightarrow>
          (case danglers_down x of
             None \<Rightarrow> None
           | Some x \<Rightarrow> Some (x, snd point)))"

text \<open>
  A coordinate function that may not return, applied to every coordinate of a list
  in order and to every coordinate of a geometry; the result is \<open>None\<close> when one of
  the calls does not return.
\<close>

fun mapOption :: "('a \<Rightarrow> 'b option) \<Rightarrow> 'a list \<Rightarrow> 'b list option" where
  "mapOption f [] = Some []"
| "mapOption f (x # xs) =
     (case f x of
        None \<Rightarrow> None
      | Some y \<Rightarrow> (case mapOption f xs of None \<Rightarrow> None | Some ys \<Rightarrow> Some (y # ys)))"

fun transformOption :: "(pt \<Rightarrow> pt option) \<Rightarrow> geometry \<Rightarrow> geometry option" where
  "transformOption f (Point p) = map_option Point (f p)"
| "transformOption f (MultiPoint ps) = map_option MultiPoint (mapOption f ps)"
| "transformOption f (LineString ps) = map_option LineString (mapOption f ps)"
| "transformOption f (MultiLineString pss) = map_option MultiLineString (mapOption (mapOption f) pss)"
| "transformOption f (Polygon ps) = map_option Polygon (mapOption f ps)"
| "transformOption f (MultiPolygon pss) = map_option MultiPolygon (mapOption (mapOption f) pss)"

text \<open>
  \<^verbatim>\<open>undangle\<close>: the geometry is transformed from EPSG:4326 to the projection
  \<^verbatim>\<open>undangle\<close>, whose registered coordinate function is \<^verbatim>\<open>transformDanglers\<close>.
\<close>

definition undangle :: "geometry \<Rightarrow> geometry option" where
  "undangle wkt = transformOption transformDanglers wkt"

subsection \<open>Type tags and extents\<close>

datatype wktType = POINT | MULTIPOINT | LINESTRING | MULTILINESTRING | POLYGON | MULTIPOLYGON

fun typeTag :: "geometry \<Rightarrow> wktType" where
  "typeTag (Point p) = POINT"
| "typeTag (MultiPoint ps) = MULTIPOINT"
| "typeTag (LineString ps) = LINESTRING"
| "typeTag (MultiLineString pss) = MULTILINESTRING"
| "typeTag (Polygon ps) = POLYGON"
| "typeTag (MultiPolygon pss) = MULTIPOLYGON"

text \<open>
  \<^verbatim>\<open>extractGeometryType\<close> returns the text before the first opening parenthesis, and
  \<^verbatim>\<open>null\<close> when there is none. The WKT of a geometry without coordinates is
  \<^verbatim>\<open>TYPE EMPTY\<close>, which has no parenthesis.
\<close>

definition extractGeometryType :: "geometry \<Rightarrow> wktType option" where
  "extractGeometryType wkt = (if allPoints wkt = [] then None else Some (typeTag wkt))"

text \<open>
  The extent of a geometry is the bounding box \<^verbatim>\<open>[minX, minY, maxX, maxY]\<close> of its
  coordinates. The extent of no coordinates is OpenLayers' empty extent
  \<^verbatim>\<open>[Infinity, Infinity, -Infinity, -Infinity]\<close>, here \<open>EmptyExtent\<close>; every function
  that reads an extent says what the comparisons of the source give on it.
\<close>

datatype extent = EmptyExtent | Extent real real real real

fun extendCoordinate :: "extent \<Rightarrow> pt \<Rightarrow> extent" where
  "extendCoordinate EmptyExtent p = Extent (fst p) (snd p) (fst p) (snd p)"
| "extendCoordinate (Extent minX minY maxX maxY) p =
     Extent (min minX (fst p)) (min minY (snd p)) (max maxX (fst p)) (max maxY (snd p))"

definition extentOf :: "pt list \<Rightarrow> extent" where
  "extentOf ps = foldl extendCoordinate EmptyExtent ps"

definition getExtent :: "geometry \<Rightarrow> extent" where
  "getExtent g = extentOf (allPoints g)"

text \<open>
  A call that yields no geometry: \<open>NotWkt\<close> when the text it returns is not WKT (it
  holds \<^verbatim>\<open>NaN\<close> or \<^verbatim>\<open>undefined\<close>), \<open>Raised\<close> when it raises an exception (a
  reader is given such a text, a name is not defined, or a method is called on an
  object that does not have it), \<open>NoReturn\<close> when it never returns.
\<close>

datatype failure = NotWkt | Raised | NoReturn

subsection \<open>Polar stereographic transforms\<close>

text \<open>\<^verbatim>\<open>Math.atan2(y, x)\<close> on the reals (there is no signed zero; \<open>atan2 0 0 = 0\<close>).\<close>

definition atan2 :: "real \<Rightarrow> real \<Rightarrow> real" where
  "atan2 y x =
     (if x > 0 then arctan (y / x)
      else if x < 0 then (if y \<ge> 0 then arctan (y / x) + pi else arctan (y / x) - pi)
      else if y > 0 then pi / 2
      else if y < 0 then - (pi / 2)
      else 0)"

definition transformLatLonToPolarMeters :: "pt \<Rightarrow> projection \<Rightarrow> real \<Rightarrow> pt" where
  "transformLatLonToPolarMeters point projection caxisradius =
     (let R = caxisradius * 1000;
          x = fst point;
          y = snd point;
          lonRadians = x * pi / 180;
          latRadians = y * pi / 180
      in if projection = NorthPolar
         then (2 * R * tan (pi / 4 - latRadians / 2) * sin lonRadians,
               - 2 * R * tan (pi / 4 - latRadians / 2) * cos lonRadians)
         else (2 * R * tan (pi / 4 + latRadians / 2) * sin lonRadians,
               2 * R * tan (pi / 4 + latRadians / 2) * cos lonRadians))"

text \<open>
  \<^verbatim>\<open>transformPolarMetersToLatLon\<close>: the \<^verbatim>\<open>switch\<close> has a case for each polar projection
  and no default; under any other projection \<^verbatim>\<open>clat\<close> and \<^verbatim>\<open>lonRadians\<close> stay
  undefined and both coordinates of the result are NaN, here \<open>None\<close>.
\<close>

definition transformPolarMetersToLatLon :: "pt \<Rightarrow> projection \<Rightarrow> real \<Rightarrow> pt option" where
  "transformPolarMetersToLatLon point projection caxisradius =
     (let R = caxisradius * 1000;
          x = fst point;
          y = snd point
      in case (case projection of
                 NorthPolar \<Rightarrow> Some (90, atan2 x (- y))
               | SouthPolar \<Rightarrow> Some (- 90, atan2 x y)
               | Cylindrical \<Rightarrow> None) of
           None \<Rightarrow> None
         | Some (clat, lonRadians) \<Rightarrow>
             (let clatRadians = clat * (pi / 180);
                  p = sqrt (x ^ 2 + y ^ 2);
                  c = 2 * arctan (p / (2 * R));
                  latRadians = arcsin (cos c * sin clatRadians);
                  lat = latRadians * 180 / pi;
                  lon = lonRadians * 180 / pi;
                  lon = (if lon < 0 then lon + 360 else lon)
              in Some (lon, lat)))"

subsection \<open>Dateline crossing\<close>

text \<open>
  The bounds rule of \<^verbatim>\<open>crossesDateline\<close> for a POLYGON or LINESTRING under the
  cylindrical projection. \<^verbatim>\<open>brX\<close> is the x of the bottom right corner of the extent
  (its \<^verbatim>\<open>maxX\<close>), \<^verbatim>\<open>blX\<close> the x of the bottom left corner (its \<^verbatim>\<open>minX\<close>). On the empty
  extent \<^verbatim>\<open>Math.max(-Infinity, Infinity)\<close> is \<^verbatim>\<open>Infinity\<close> and the minimum is
  \<^verbatim>\<open>-Infinity\<close>, so the first disjunct holds.
\<close>

definition boundsRule :: "extent \<Rightarrow> bool" where
  "boundsRule ex =
     (case ex of
        EmptyExtent \<Rightarrow> True
      | Extent exMinX exMinY exMaxX exMaxY \<Rightarrow>
          (let brX = exMaxX;
               blX = exMinX;
               maxX = max brX blX;
               minX = min brX blX
           in (maxX > 360 \<and> minX < 360) \<or> (minX < 0 \<and> maxX > 0)))"

text \<open>
  The recursive call of \<^verbatim>\<open>crossesDateline\<close> on a child of a MULTIPOLYGON: the child is
  written as a POLYGON and takes the POLYGON branch, or has no type tag and takes the
  final \<^verbatim>\<open>else\<close> (\<^verbatim>\<open>return false\<close>).
\<close>

definition crossesDatelineChild :: "pt list \<Rightarrow> bool" where
  "crossesDatelineChild poly =
     (case extractGeometryType (Polygon poly) of
        Some POLYGON \<Rightarrow> boundsRule (getExtent (Polygon poly))
      | _ \<Rightarrow> False)"

definition touchesLeft :: "extent \<Rightarrow> bool" where
  "touchesLeft childBounds =
     (case childBounds of EmptyExtent \<Rightarrow> False | Extent minX minY maxX maxY \<Rightarrow> minX = 0)"

definition touchesRight :: "extent \<Rightarrow> bool" where
  "touchesRight childBounds =
     (case childBounds of EmptyExtent \<Rightarrow> False | Extent minX minY maxX maxY \<Rightarrow> maxX = 360)"

text \<open>
  The loop over the children of a MULTIPOLYGON, with the flags \<^verbatim>\<open>leftSplit\<close> and
  \<^verbatim>\<open>rightSplit\<close>; the first equation is the code after the loop. A crossing child
  sets \<^verbatim>\<open>crossingDateline\<close> and leaves the loop, and the result is then true.
\<close>

fun multiPolygonLoop :: "pt list list \<Rightarrow> bool \<Rightarrow> bool \<Rightarrow> bool" where
  "multiPolygonLoop [] leftSplit rightSplit = (leftSplit \<and> rightSplit)"
| "multiPolygonLoop (poly # polys) leftSplit rightSplit =
     (if crossesDatelineChild poly then True
      else multiPolygonLoop polys
             (leftSplit \<or> touchesLeft (extentOf poly))
             (rightSplit \<or> touchesRight (extentOf poly)))"

text \<open>
  Modelled from the spec: \<^verbatim>\<open>dateline.intersectsExtent(exP)\<close> is a method of the
  OpenLayers line string, which is not part of the sources. The spec: "project a
  synthetic dateline segment (the meridian from the pole to the projection's edge)
  into the working space and test geometric intersection with the feature's projected
  extent". The segment from \<open>a\<close> to \<open>b\<close> is vertical (\<open>fst a = fst b\<close>) in its
  only use, and for a vertical segment this is the geometric intersection with the box.
\<close>

definition intersectsExtent :: "pt \<Rightarrow> pt \<Rightarrow> extent \<Rightarrow> bool" where
  "intersectsExtent a b ex =
     (case ex of
        EmptyExtent \<Rightarrow> False
      | Extent minX minY maxX maxY \<Rightarrow>
          minX \<le> fst a \<and> fst a \<le> maxX \<and>
          min (snd a) (snd b) \<le> maxY \<and> minY \<le> max (snd a) (snd b))"

text \<open>
  \<^verbatim>\<open>crossesDateline(wktString, projection)\<close>. The polar branch transforms the geometry
  with the coordinate function registered for the projection, which is
  \<^verbatim>\<open>transformLatLonToPolarMeters\<close> with the radius \<^verbatim>\<open>caxis\<close> of the map; that radius is
  the first argument here.
\<close>

definition crossesDateline :: "real \<Rightarrow> geometry \<Rightarrow> projection \<Rightarrow> bool" where
  "crossesDateline caxis wktString projection =
     (if projection = Cylindrical then
        (case extractGeometryType wktString of
           Some POLYGON \<Rightarrow> boundsRule (getExtent wktString)
         | Some LINESTRING \<Rightarrow> boundsRule (getExtent wktString)
         | Some MULTIPOLYGON \<Rightarrow>
             (case wktString of MultiPolygon polys \<Rightarrow> multiPolygonLoop polys False False
                              | _ \<Rightarrow> False)
         | Some POINT \<Rightarrow> False
         | Some MULTIPOINT \<Rightarrow> False
         | _ \<Rightarrow> False)
      else
        (let geometryP = transform (\<lambda>coordinate.
                             transformLatLonToPolarMeters coordinate projection caxis) wktString;
             exP = getExtent geometryP;
             points = (if projection = NorthPolar then ((0, 0), (0, - 2357032))
                       else ((0, 0), (0, 2357032)))
         in intersectsExtent (fst points) (snd points) exP))"

subsection \<open>Drawability\<close>

text \<open>
  \<^verbatim>\<open>isDrawable(geometry)\<close> reads the projection of the map, here the first argument.
  \<^verbatim>\<open>getBottomRight(ex)[1]\<close> is the \<^verbatim>\<open>minY\<close> of the extent and \<^verbatim>\<open>getTopRight(ex)[1]\<close>
  its \<^verbatim>\<open>maxY\<close>; on the empty extent they are \<^verbatim>\<open>Infinity\<close> and \<^verbatim>\<open>-Infinity\<close>.
\<close>

definition isDrawable :: "projection \<Rightarrow> geometry \<Rightarrow> bool" where
  "isDrawable mapProjection geometry =
     (let ex = getExtent geometry
      in case mapProjection of
           Cylindrical \<Rightarrow> True
         | NorthPolar \<Rightarrow>
             (case ex of EmptyExtent \<Rightarrow> True | Extent minX minY maxX maxY \<Rightarrow> minY > 60)
         | SouthPolar \<Rightarrow>
             (case ex of EmptyExtent \<Rightarrow> True | Extent minX minY maxX maxY \<Rightarrow> maxY < - 60))"

subsection \<open>Warping\<close>

text \<open>
  \<^verbatim>\<open>saturatePointArray\<close>. An element of the array is a coordinate pair; the loop over
  the index \<^verbatim>\<open>i\<close> handles the pair \<^verbatim>\<open>pointArray[i]\<close>, \<^verbatim>\<open>pointArray[i+1]\<close> and the
  statement after the loop appends the last element.
\<close>

definition skipPoint :: "pt \<Rightarrow> pt \<Rightarrow> bool" where
  "skipPoint latlon nextlatlon =
     ((fst latlon = fst nextlatlon \<and> snd latlon = snd nextlatlon) \<or>
      ((fst latlon = 0 \<or> fst latlon = 360) \<and> (fst nextlatlon = 0 \<or> fst nextlatlon = 360)))"

definition saturateEdge :: "pt \<Rightarrow> pt \<Rightarrow> pt list" where
  "saturateEdge latlon nextlatlon =
     (let midLon = (fst latlon + fst nextlatlon) / 2;
          midLat = (snd latlon + snd nextlatlon) / 2;
          qLon = (fst latlon + midLon) / 2;
          qLat = (snd latlon + midLat) / 2;
          qqqLon = (fst nextlatlon + midLon) / 2;
          qqqLat = (snd nextlatlon + midLat) / 2;
          eLon = (fst latlon + qLon) / 2;
          eLat = (snd latlon + qLat) / 2;
          eeeLon = (midLon + qLon) / 2;
          eeeLat = (midLat + qLat) / 2;
          eeeeeLon = (midLon + qqqLon) / 2;
          eeeeeLat = (midLat + qqqLat) / 2;
          eeeeeeeLon = (fst nextlatlon + qqqLon) / 2;
          eeeeeeeLat = (snd nextlatlon + qqqLat) / 2
      in [latlon,
          ((fst latlon + eLon) / 2, (snd latlon + eLat) / 2),
          (eLon, eLat),
          ((qLon + eLon) / 2, (qLat + eLat) / 2),
          (qLon, qLat),
          ((qLon + eeeLon) / 2, (qLat + eeeLat) / 2),
          (eeeLon, eeeLat),
          ((midLon + eeeLon) / 2, (midLat + eeeLat) / 2),
          (midLon, midLat),
          ((midLon + eeeeeLon) / 2, (midLat + eeeeeLat) / 2),
          (eeeeeLon, eeeeeLat),
          ((qqqLon + eeeeeLon) / 2, (qqqLat + eeeeeLat) / 2),
          (qqqLon, qqqLat),
          ((qqqLon + eeeeeeeLon) / 2, (qqqLat + eeeeeeeLat) / 2),
          (eeeeeeeLon, eeeeeeeLat),
          ((fst nextlatlon + eeeeeeeLon) / 2, (snd nextlatlon + eeeeeeeLat) / 2)])"

fun saturatePointArray :: "pt list \<Rightarrow> pt list" where
  "saturatePointArray [] = []"
| "saturatePointArray [p] = [p]"
| "saturatePointArray (p # q # rest) =
     (if skipPoint p q then [p] else saturateEdge p q) @ saturatePointArray (q # rest)"

definition warpRing :: "pt list \<Rightarrow> pt list" where
  "warpRing points = (if length points \<le> 16 then saturatePointArray points else points)"

text \<open>
  \<^verbatim>\<open>warpWkt\<close>. The MULTILINESTRING branch builds \<^verbatim>\<open>new OpenLayers.Format.WKT()\<close> and
  calls \<^verbatim>\<open>getGeometry()\<close> on what its \<^verbatim>\<open>read\<close> returns. \<^verbatim>\<open>OpenLayers\<close> is the
  namespace of OpenLayers 2, not of the \<^verbatim>\<open>ol\<close> library that the code is written
  against, and a feature of OpenLayers 2 has no \<^verbatim>\<open>getGeometry\<close>: the branch raises
  whether or not the name is defined.
\<close>

definition warpWkt :: "geometry \<Rightarrow> failure + geometry" where
  "warpWkt wkt =
     (case extractGeometryType wkt of
        Some POINT \<Rightarrow> Inr wkt
      | Some MULTIPOINT \<Rightarrow> Inr wkt
      | Some POLYGON \<Rightarrow>
          (if length (allPoints wkt) \<le> 16
           then Inr (Polygon (saturatePointArray (allPoints wkt))) else Inr wkt)
      | Some LINESTRING \<Rightarrow>
          (if length (allPoints wkt) \<le> 16
           then Inr (LineString (saturatePointArray (allPoints wkt))) else Inr wkt)
      | Some MULTIPOLYGON \<Rightarrow>
          (case wkt of MultiPolygon polys \<Rightarrow> Inr (MultiPolygon (map warpRing polys))
                     | _ \<Rightarrow> Inr wkt)
      | Some MULTILINESTRING \<Rightarrow> Inl Raised
      | None \<Rightarrow> Inr wkt)"

subsection \<open>Splitting on the dateline\<close>

text \<open>
  The state of the loop of the POLYGON branch: the two texts \<^verbatim>\<open>poly[1]\<close> and
  \<^verbatim>\<open>poly[2]\<close> as lists of coordinates, the index \<^verbatim>\<open>polyNum\<close> of the one being
  written, \<^verbatim>\<open>polyRingPoint\<close>, \<^verbatim>\<open>pollLatLon\<close> (its entries 1 and 2 as a pair),
  \<^verbatim>\<open>datelineCrosses\<close> and \<^verbatim>\<open>poly1HighLon\<close>. \<open>hasNaN\<close> records that a latitude
  written into a text was \<^verbatim>\<open>NaN\<close>.
\<close>

record splitState =
  poly :: "nat \<Rightarrow> pt list"
  polyNum :: nat
  polyRingPoint :: "nat \<Rightarrow> pt option"
  pollLatLon :: "(pt \<times> pt) option"
  datelineCrosses :: nat
  poly1HighLon :: bool
  hasNaN :: bool

definition initialSplitState :: splitState where
  "initialSplitState =
     \<lparr>poly = (\<lambda>n. []), polyNum = 1, polyRingPoint = (\<lambda>n. None), pollLatLon = None,
      datelineCrosses = 0, poly1HighLon = True, hasNaN = False\<rparr>"

text \<open>\<^verbatim>\<open>if (poly[polyNum]) {poly[polyNum] = poly[polyNum]+',';} poly[polyNum] = poly[polyNum]+lon+' '+lat;\<close>\<close>

definition pushPoint :: "splitState \<Rightarrow> pt \<Rightarrow> splitState" where
  "pushPoint st p = st\<lparr>poly := (poly st)(polyNum st := poly st (polyNum st) @ [p])\<rparr>"

text \<open>
  The test at the head of the loop body: two consecutive points at a pole whose
  longitudes jump across the seam mean that the polygon was split before.
\<close>

definition alreadySplit :: "pt \<Rightarrow> pt \<Rightarrow> bool" where
  "alreadySplit p q =
     (let lon = fst p; lat = snd p; nextLon = fst q; nextLat = snd q
      in ((lat = 90 \<and> nextLat = 90) \<or> (lat = - 90 \<and> nextLat = - 90)) \<and>
         ((lon = 360 \<and> nextLon = 0) \<or> (lon = 0 \<and> nextLon = 360) \<or>
          (lon = 720 \<and> nextLon = 360) \<or> (lon = 0 \<and> nextLon = - 360)))"

definition jumps :: "pt \<Rightarrow> pt \<Rightarrow> bool" where
  "jumps p q = (fst q - fst p > 180 \<or> fst q - fst p < - 180)"

text \<open>
  The latitude at which the segment meets the dateline. In the cylindrical case the
  slope is a quotient; when its denominator is 0 the quotient is infinite or
  \<^verbatim>\<open>NaN\<close> and is multiplied by 0, so the latitude is \<^verbatim>\<open>NaN\<close>, here \<open>None\<close>.
\<close>

definition crossingLat :: "projection \<Rightarrow> pt \<Rightarrow> pt \<Rightarrow> real option" where
  "crossingLat projection p q =
     (let lon = fst p; lat = snd p; nextLon = fst q; nextLat = snd q
      in if projection \<noteq> Cylindrical then
           (let equationLat = (((nextLon - lon) * (lat - 90)) - ((nextLat - lat) * lon))
                                / (- 180 * (nextLon - lon))
            in Some (lat + equationLat * (nextLat - lat)))
         else if lon > nextLon then
           (if (360 + nextLon) - lon = 0 then None
            else (let slope = (nextLat - lat) / ((360 + nextLon) - lon)
                  in Some (lat + slope * (360 - lon))))
         else
           (if nextLon - (360 + lon) = 0 then None
            else (let slope = (nextLat - lat) / (nextLon - (360 + lon))
                  in Some (lat + slope * (360 - (360 + lon))))))"

text \<open>
  The body of \<^verbatim>\<open>if (((nextLon - lon) > 180) || ((nextLon - lon) < -180))\<close>. Inside
  it exactly one of the two tests holds, so the two \<^verbatim>\<open>if\<close> statements that follow
  are the two branches of one choice. A latitude that is \<^verbatim>\<open>NaN\<close> is written as 0 and
  recorded in \<open>hasNaN\<close>.
\<close>

definition crossStep :: "projection \<Rightarrow> splitState \<Rightarrow> pt \<Rightarrow> pt \<Rightarrow> splitState" where
  "crossStep projection st0 p q =
     (let lon = fst p; nextLon = fst q;
          st1 = st0\<lparr>datelineCrosses := datelineCrosses st0 + 1\<rparr>;
          newLat = (case crossingLat projection p q of None \<Rightarrow> 0 | Some l \<Rightarrow> l);
          st2 = st1\<lparr>hasNaN := hasNaN st1 \<or> crossingLat projection p q = None\<rparr>;
          st3 = pushPoint st2 p;
          (st4, datelineLon) =
            (if nextLon - lon > 180 then
               (let s = pushPoint st3 (0, newLat);
                    s = s\<lparr>pollLatLon := (if projection = NorthPolar
                                           then Some ((0, 90), (360, 90))
                                           else Some ((0, - 90), (360, - 90)))\<rparr>
                in (s\<lparr>polyNum := (if polyNum s = 1 then 2 else 1)\<rparr>, 0 :: real))
             else
               (let s = pushPoint st3 (360, newLat);
                    s = s\<lparr>pollLatLon := (if projection = NorthPolar
                                           then Some ((360, 90), (0, 90))
                                           else Some ((360, - 90), (0, - 90)))\<rparr>
                in (if polyNum s = 1 then s\<lparr>polyNum := 2\<rparr>
                    else s\<lparr>polyNum := 1, poly1HighLon := False\<rparr>, 360)));
          datelineLon = (if datelineLon = 360 then 0 else 360);
          st5 = pushPoint st4 (datelineLon, newLat)
      in st5\<lparr>polyRingPoint := (polyRingPoint st5)(polyNum st5 \<mapsto> (datelineLon, newLat))\<rparr>)"

text \<open>
  The loop over the coordinates; \<open>i\<close> counts the points handled so far. The last
  point has no successor: \<^verbatim>\<open>nextLon\<close> and \<^verbatim>\<open>nextLat\<close> are \<^verbatim>\<open>undefined\<close>, every
  comparison with them is false and the point is pushed. \<open>Inl\<close> is the early
  \<^verbatim>\<open>return wktString\<close>.
\<close>

fun splitLoop :: "projection \<Rightarrow> geometry \<Rightarrow> nat \<Rightarrow> splitState \<Rightarrow> pt list \<Rightarrow> geometry + splitState" where
  "splitLoop projection wktString i st [] = Inr st"
| "splitLoop projection wktString i st [p] =
     (let st = (if i = 0 then st\<lparr>polyRingPoint := (polyRingPoint st)(polyNum st \<mapsto> p)\<rparr> else st)
      in Inr (pushPoint st p))"
| "splitLoop projection wktString i st (p # q # rest) =
     (if alreadySplit p q then Inl wktString
      else
        (let st = (if i = 0 then st\<lparr>polyRingPoint := (polyRingPoint st)(polyNum st \<mapsto> p)\<rparr> else st);
             st = (if jumps p q then crossStep projection st p q else pushPoint st p)
         in splitLoop projection wktString (Suc i) st (q # rest)))"

text \<open>The code after the loop: "make multipolygon".\<close>

definition makeMultiPolygon :: "splitState \<Rightarrow> failure + geometry" where
  "makeMultiPolygon st =
     (if hasNaN st then Inl NotWkt
      else if poly st 2 = [] then Inr (MultiPolygon [poly st 1])
      else if datelineCrosses st = 1 then
        (case pollLatLon st of
           None \<Rightarrow> Inl NotWkt
         | Some (pole1, pole2) \<Rightarrow> Inr (MultiPolygon [poly st 1 @ [pole1, pole2] @ poly st 2]))
      else
        (case polyRingPoint st 2 of
           None \<Rightarrow> Inl NotWkt
         | Some ringPoint \<Rightarrow> Inr (MultiPolygon [poly st 1, poly st 2 @ [ringPoint]])))"

text \<open>The POLYGON branch of \<^verbatim>\<open>splitOnDateline\<close>, for a ring with coordinates.\<close>

definition splitPolygon :: "projection \<Rightarrow> pt list \<Rightarrow> failure + geometry" where
  "splitPolygon projection ring =
     (case undangle (Polygon ring) of
        None \<Rightarrow> Inl NoReturn
      | Some wktString \<Rightarrow>
          (let coordinates = allPoints wktString
           in case splitLoop projection wktString 0 initialSplitState coordinates of
                Inl wkt \<Rightarrow> Inr wkt
              | Inr st \<Rightarrow> makeMultiPolygon st))"

text \<open>
  The call of \<^verbatim>\<open>splitOnDateline\<close> on a child of a MULTIPOLYGON: a child with
  coordinates takes the POLYGON branch; a child without has no type tag and is
  returned unchanged.
\<close>

definition splitChild :: "projection \<Rightarrow> pt list \<Rightarrow> failure + geometry" where
  "splitChild projection child =
     (case extractGeometryType (Polygon child) of
        Some POLYGON \<Rightarrow> splitPolygon projection child
      | _ \<Rightarrow> Inr (Polygon child))"

text \<open>
  The loop over the children of a MULTIPOLYGON. \<^verbatim>\<open>childComponents\<close> is declared
  outside the loop: when a child comes back as a POLYGON only its element 0 is
  overwritten. The text returned for a child is read again, which raises when it is
  not WKT; a result without type tag has no \<^verbatim>\<open>getPolygons\<close>.
\<close>

fun splitChildren :: "projection \<Rightarrow> pt list list \<Rightarrow> pt list list \<Rightarrow> pt list list \<Rightarrow> failure + geometry" where
  "splitChildren projection [] childComponents newGeometry = Inr (MultiPolygon newGeometry)"
| "splitChildren projection (child # polys) childComponents newGeometry =
     (case splitChild projection child of
        Inl NotWkt \<Rightarrow> Inl Raised
      | Inl e \<Rightarrow> Inl e
      | Inr splitGeo \<Rightarrow>
          (case (extractGeometryType splitGeo, splitGeo) of
             (Some POLYGON, Polygon ring) \<Rightarrow>
               (let childComponents = (if childComponents = [] then [ring]
                                       else childComponents[0 := ring])
                in splitChildren projection polys childComponents (newGeometry @ childComponents))
           | (Some MULTIPOLYGON, MultiPolygon rings) \<Rightarrow>
               splitChildren projection polys rings (newGeometry @ rings)
           | _ \<Rightarrow> Inl Raised))"

text \<open>
  \<^verbatim>\<open>splitOnDateline(wktString, projection)\<close>. The first argument is the polar radius
  of the map, read by \<^verbatim>\<open>crossesDateline\<close>. The first branch calls \<^verbatim>\<open>getPolygons\<close>,
  which a MULTILINESTRING does not have. The LINESTRING branch, once past its guard,
  starts with \<^verbatim>\<open>new OpenLayers.Format.GeoJSON()\<close> and \<^verbatim>\<open>wktParse.read(wktString)\<close>.
  \<^verbatim>\<open>OpenLayers\<close> is the namespace of OpenLayers 2, not of the \<^verbatim>\<open>ol\<close> library that
  the code is written against, and \<^verbatim>\<open>wktParse\<close> is an \<^verbatim>\<open>ol.format.WKT\<close>, which has
  no \<^verbatim>\<open>read\<close>: the branch raises before it builds anything, whether or not the name
  is defined.
\<close>

definition splitOnDateline :: "real \<Rightarrow> geometry \<Rightarrow> projection \<Rightarrow> failure + geometry" where
  "splitOnDateline caxis wktString projection =
     (case (extractGeometryType wktString, wktString) of
        (Some MULTIPOLYGON, MultiPolygon polys) \<Rightarrow> splitChildren projection polys [] []
      | (Some MULTILINESTRING, _) \<Rightarrow> Inl Raised
      | (Some POLYGON, Polygon ring) \<Rightarrow> splitPolygon projection ring
      | (Some LINESTRING, LineString line) \<Rightarrow>
          (if \<not> crossesDateline caxis wktString projection then Inr wktString
           else Inl Raised)
      | _ \<Rightarrow> Inr wktString)"

subsection \<open>Dateline shift\<close>

definition transformDatelineShift :: "pt \<Rightarrow> pt" where
  "transformDatelineShift point = (fst point + 360, snd point)"

definition transformDatelineUnShift :: "pt \<Rightarrow> pt" where
  "transformDatelineUnShift point = (fst point - 360, snd point)"

text \<open>
  The loop of \<^verbatim>\<open>datelineShift\<close> over the child geometries: each child is appended,
  then its copy shifted by +360, then its copy shifted by -360.
\<close>

fun shiftLoop :: "pt list list \<Rightarrow> pt list list" where
  "shiftLoop [] = []"
| "shiftLoop (g # geometries) =
     [g, map transformDatelineShift g, map transformDatelineUnShift g] @ shiftLoop geometries"

text \<open>
  \<^verbatim>\<open>datelineShift(wkt)\<close>. Without a type tag no case of the \<^verbatim>\<open>switch\<close> is taken and
  \<^verbatim>\<open>shiftedGeometry\<close> is not assigned.
\<close>

definition datelineShift :: "geometry \<Rightarrow> failure + geometry" where
  "datelineShift wkt =
     (case (extractGeometryType wkt, wkt) of
        (Some POLYGON, Polygon ring) \<Rightarrow> Inr (MultiPolygon (shiftLoop [ring]))
      | (Some MULTIPOLYGON, MultiPolygon polys) \<Rightarrow> Inr (MultiPolygon (shiftLoop polys))
      | (Some LINESTRING, LineString line) \<Rightarrow> Inr (MultiLineString (shiftLoop [line]))
      | (Some MULTILINESTRING, MultiLineString lines) \<Rightarrow> Inr (MultiLineString (shiftLoop lines))
      | (Some POINT, Point p) \<Rightarrow> Inr (MultiPoint (concat (shiftLoop [[p]])))
      | (Some MULTIPOINT, MultiPoint ps) \<Rightarrow>
          Inr (MultiPoint (concat (shiftLoop (map (\<lambda>p. [p]) ps))))
      | _ \<Rightarrow> Inl Raised)"

subsection \<open>Drawing and storing vectors\<close>

text \<open>
  A WKT text held in a vector state: the empty string, the text of a geometry, or a
  text that is not WKT.
\<close>

datatype wkt = NoWkt | Wkt geometry | BadWkt

text \<open>
  The state that \<^verbatim>\<open>draw\<close> returns. \<^verbatim>\<open>vectorFeature\<close> is the feature read from
  \<^verbatim>\<open>drawWKT\<close>; its geometry is the geometry of \<^verbatim>\<open>drawWKT\<close>. Styles and the layer
  belong to the rendering and are not modelled.
\<close>

record vectorState =
  drawWKT :: wkt
  searchWKT :: wkt
  splitWKT :: wkt
  color :: string
  ident :: string
  center :: bool
  datelineShiftFlag :: bool
  attributes :: "(string \<times> string) list"
  index :: "nat option"

text \<open>
  \<^verbatim>\<open>format.writeGeometry(geometry, {decimals: 2})\<close>: OpenLayers rounds every coordinate
  \<open>c\<close> to \<^verbatim>\<open>Math.round(c * 100) / 100\<close>.
\<close>

definition round2 :: "real \<Rightarrow> real" where
  "round2 c = of_int \<lfloor>c * 100 + 1 / 2\<rfloor> / 100"

definition decimals2 :: "geometry \<Rightarrow> geometry" where
  "decimals2 g = transform (\<lambda>p. (round2 (fst p), round2 (snd p))) g"

text \<open>
  The test of \<^verbatim>\<open>draw\<close> that decides whether the geometry is undangled:
  \<^verbatim>\<open>(exWidth > 360) || ((brX > 360) && (blX > 360)) || ((brX < 0) && (blX < 0))\<close>. On
  the empty extent the width is \<^verbatim>\<open>-Infinity\<close>, \<^verbatim>\<open>brX\<close> is \<^verbatim>\<open>-Infinity\<close> and \<^verbatim>\<open>blX\<close>
  is \<^verbatim>\<open>Infinity\<close>.
\<close>

definition needsUndangle :: "extent \<Rightarrow> bool" where
  "needsUndangle ex =
     (case ex of
        EmptyExtent \<Rightarrow> False
      | Extent minX minY maxX maxY \<Rightarrow>
          (let brX = maxX; blX = minX; exWidth = maxX - minX
           in exWidth > 360 \<or> (brX > 360 \<and> blX > 360) \<or> (brX < 0 \<and> blX < 0)))"

text \<open>
  \<^verbatim>\<open>draw\<close>. The arguments before the geometry are the polar radius of the map and
  the projection of the map. Under the cylindrical projection the text returned by
  \<^verbatim>\<open>splitOnDateline\<close> is stored without being read; under a polar projection it is
  handed to \<^verbatim>\<open>warpWkt\<close> and read.
\<close>

definition draw ::
  "real \<Rightarrow> projection \<Rightarrow> geometry \<Rightarrow> (string \<times> string) list \<Rightarrow>
   string \<Rightarrow> string \<Rightarrow> bool \<Rightarrow> bool \<Rightarrow> failure + vectorState" where
  "draw caxis currentProjection wktString0 attrs colour vid centre shift =
     (let vectorState = \<lparr>drawWKT = Wkt wktString0, searchWKT = NoWkt, splitWKT = NoWkt,
                          color = colour, ident = vid, center = centre,
                          datelineShiftFlag = shift, attributes = attrs, index = None\<rparr>
      in if currentProjection = Cylindrical then
           (case (if needsUndangle (getExtent wktString0)
                  then undangle wktString0 else Some wktString0) of
              None \<Rightarrow> Inl NoReturn
            | Some wktString \<Rightarrow>
                (let vectorState = vectorState\<lparr>searchWKT := Wkt wktString\<rparr>
                 in case (if crossesDateline caxis wktString currentProjection
                          then (case splitOnDateline caxis wktString currentProjection of
                                  Inr g \<Rightarrow> Inr (vectorState\<lparr>splitWKT := Wkt g\<rparr>)
                                | Inl NotWkt \<Rightarrow> Inr (vectorState\<lparr>splitWKT := BadWkt\<rparr>)
                                | Inl e \<Rightarrow> Inl e)
                          else Inr vectorState) of
                      Inl e \<Rightarrow> Inl e
                    | Inr vectorState \<Rightarrow>
                        (if shift then
                           (case datelineShift wktString of
                              Inl e \<Rightarrow> Inl Raised
                            | Inr g \<Rightarrow> Inr (vectorState\<lparr>drawWKT := Wkt g\<rparr>))
                         else Inr vectorState)))
         else
           (let wktLatLon = decimals2 wktString0;
                vectorState = vectorState\<lparr>searchWKT := Wkt wktLatLon\<rparr>
            in case (if crossesDateline caxis wktString0 currentProjection
                     then (case splitOnDateline caxis wktLatLon currentProjection of
                             Inr g \<Rightarrow>
                               (case warpWkt g of
                                  Inl e \<Rightarrow> Inl e
                                | Inr wktWarp \<Rightarrow> Inr (vectorState\<lparr>splitWKT := Wkt g\<rparr>, wktWarp))
                           | Inl NotWkt \<Rightarrow> Inl Raised
                           | Inl e \<Rightarrow> Inl e)
                     else (case warpWkt wktLatLon of
                             Inl e \<Rightarrow> Inl e
                           | Inr wktWarp \<Rightarrow> Inr (vectorState, wktWarp))) of
                 Inl e \<Rightarrow> Inl e
               | Inr (vectorState, wktWarp) \<Rightarrow>
                   (let geometryWarp = transform (\<lambda>coordinate.
                          transformLatLonToPolarMeters coordinate currentProjection caxis) wktWarp
                    in Inr (vectorState\<lparr>drawWKT := Wkt (decimals2 geometryWarp)\<rparr>))))"

text \<open>
  \<^verbatim>\<open>drawAndStore\<close>: the state is given its index and pushed onto \<^verbatim>\<open>storedVectors\<close>,
  whose removed entries are \<^verbatim>\<open>null\<close>, here \<open>None\<close>. When \<^verbatim>\<open>draw\<close> raises or does
  not return nothing is stored.
\<close>

definition drawAndStore ::
  "real \<Rightarrow> projection \<Rightarrow> vectorState option list \<Rightarrow> geometry \<Rightarrow>
   (string \<times> string) list \<Rightarrow> string \<Rightarrow> string \<Rightarrow> bool \<Rightarrow> bool \<Rightarrow>
   failure + (vectorState \<times> vectorState option list)" where
  "drawAndStore caxis currentProjection storedVectors wktString attrs colour vid centre shift =
     (case draw caxis currentProjection wktString attrs colour vid centre shift of
        Inl e \<Rightarrow> Inl e
      | Inr vectorState \<Rightarrow>
          (let vectorState = vectorState\<lparr>index := Some (length storedVectors)\<rparr>
           in Inr (vectorState, storedVectors @ [Some vectorState])))"

text \<open>
  \<^verbatim>\<open>redraw\<close>: every stored vector whose drawn geometry is drawable under the
  projection of the map is drawn again from its \<^verbatim>\<open>searchWKT\<close> and its entry is
  replaced. A \<^verbatim>\<open>draw\<close> that raises or does not return ends the loop.
\<close>

fun redraw ::
  "real \<Rightarrow> projection \<Rightarrow> vectorState option list \<Rightarrow> failure + vectorState option list" where
  "redraw caxis currentProjection [] = Inr []"
| "redraw caxis currentProjection (None # storedVectors) =
     (case redraw caxis currentProjection storedVectors of
        Inl e \<Rightarrow> Inl e
      | Inr rest \<Rightarrow> Inr (None # rest))"
| "redraw caxis currentProjection (Some currentVector # storedVectors) =
     (case (drawWKT currentVector, searchWKT currentVector) of
        (Wkt currentGeo, Wkt search) \<Rightarrow>
          (if isDrawable currentProjection currentGeo then
             (case draw caxis currentProjection search (attributes currentVector)
                     (color currentVector) (ident currentVector) (center currentVector)
                     (datelineShiftFlag currentVector) of
                Inl e \<Rightarrow> Inl e
              | Inr vectorState \<Rightarrow>
                  (case redraw caxis currentProjection storedVectors of
                     Inl e \<Rightarrow> Inl e
                   | Inr rest \<Rightarrow> Inr (Some vectorState # rest)))
           else
             (case redraw caxis currentProjection storedVectors of
                Inl e \<Rightarrow> Inl e
              | Inr rest \<Rightarrow> Inr (Some currentVector # rest)))
      | _ \<Rightarrow> Inl Raised)"

subsection \<open>Great-circle distance\<close>

text \<open>
  The result of \<^verbatim>\<open>LatLonToKM\<close>: a number of kilometres, or \<^verbatim>\<open>NaN\<close> (returned as
  such when the loop runs out of passes, or as the text of a distance that is not a
  number).
\<close>

datatype km = Km real | NaN

definition toRad :: "real \<Rightarrow> real" where
  "toRad x = x * pi / 180"

text \<open>
  \<^verbatim>\<open>Math.atan((1-f) * Math.tan(lat.toRad()))\<close>. At a pole the tangent has no value on
  the reals; the code computes it for the floating-point number next to \<open>\<pi>/2\<close>,
  where it is finite and huge, and the arc tangent brings it back to \<open>\<plusminus>\<pi>/2\<close>.
\<close>

definition reducedLatitude :: "real \<Rightarrow> real \<Rightarrow> real" where
  "reducedLatitude f lat =
     (if cos (toRad lat) = 0 then (if sin (toRad lat) > 0 then pi / 2 else - (pi / 2))
      else arctan ((1 - f) * tan (toRad lat)))"

text \<open>
  The variables that one pass of the loop assigns and the code after the loop reads.
  A value that is infinite or \<^verbatim>\<open>NaN\<close> is \<open>None\<close>.
\<close>

record vincentyVars =
  sinSigma :: real
  cosSigma :: real
  sigma :: real
  cosSqAlpha :: real
  cos2SigmaM :: "real option"
  lambda :: "real option"

text \<open>
  The body of the \<^verbatim>\<open>do\<close> loop for the current \<^verbatim>\<open>lambda\<close>; \<open>None\<close> is
  \<^verbatim>\<open>if (sinSigma==0) return 0\<close>. The quotient in \<^verbatim>\<open>cos2SigmaM\<close> is written out for
  the divisor 0: 0/0 is \<^verbatim>\<open>NaN\<close>, which the next statement replaces by 0, and any other
  numerator gives an infinite value.
\<close>

definition vincentyBody ::
  "real \<Rightarrow> real \<Rightarrow> real \<Rightarrow> real \<Rightarrow> real \<Rightarrow> real \<Rightarrow> real \<Rightarrow> vincentyVars option" where
  "vincentyBody f L sinU1 cosU1 sinU2 cosU2 lambda0 =
     (let sinLambda = sin lambda0; cosLambda = cos lambda0;
          sinSigma = sqrt ((cosU2 * sinLambda) * (cosU2 * sinLambda) +
                           (cosU1 * sinU2 - sinU1 * cosU2 * cosLambda) *
                           (cosU1 * sinU2 - sinU1 * cosU2 * cosLambda))
      in if sinSigma = 0 then None
         else
           (let cosSigma = sinU1 * sinU2 + cosU1 * cosU2 * cosLambda;
                sigma = atan2 sinSigma cosSigma;
                sinAlpha = cosU1 * cosU2 * sinLambda / sinSigma;
                cosSqAlpha = 1 - sinAlpha * sinAlpha;
                cos2SigmaM = (if cosSqAlpha = 0
                              then (if 2 * sinU1 * sinU2 = 0 then Some 0 else None)
                              else Some (cosSigma - 2 * sinU1 * sinU2 / cosSqAlpha));
                C = f / 16 * cosSqAlpha * (4 + f * (4 - 3 * cosSqAlpha));
                lambda1 = (case cos2SigmaM of
                             None \<Rightarrow> None
                           | Some c2 \<Rightarrow>
                               Some (L + (1 - C) * f * sinAlpha *
                                 (sigma + C * sinSigma * (c2 + C * cosSigma * (- 1 + 2 * c2 * c2)))))
            in Some \<lparr>sinSigma = sinSigma, cosSigma = cosSigma, sigma = sigma,
                      cosSqAlpha = cosSqAlpha, cos2SigmaM = cos2SigmaM, lambda = lambda1\<rparr>))"

text \<open>
  The state when the loop is left: the variables of the last pass, \<^verbatim>\<open>lambdaP\<close>,
  \<^verbatim>\<open>iterLimit\<close>, and the number of passes made.
\<close>

record vincentyExit =
  vars :: vincentyVars
  lambdaP :: real
  iterLimit :: nat
  iterations :: nat

text \<open>
  \<^verbatim>\<open>do { ... } while (Math.abs(lambda-lambdaP) > 1e-12 && --iterLimit>0)\<close>:
  \<^verbatim>\<open>iterLimit\<close> is decremented only when the first test holds, and a \<^verbatim>\<open>lambda\<close> that
  is \<^verbatim>\<open>NaN\<close> makes the first test false. The last argument counts the passes.
\<close>

fun vincentyLoop ::
  "real \<Rightarrow> real \<Rightarrow> real \<Rightarrow> real \<Rightarrow> real \<Rightarrow> real \<Rightarrow> real \<Rightarrow> nat \<Rightarrow> nat \<Rightarrow> vincentyExit option" where
  "vincentyLoop f L sinU1 cosU1 sinU2 cosU2 lambda0 limit n =
     (case vincentyBody f L sinU1 cosU1 sinU2 cosU2 lambda0 of
        None \<Rightarrow> None
      | Some v \<Rightarrow>
          (case lambda v of
             None \<Rightarrow> Some \<lparr>vars = v, lambdaP = lambda0, iterLimit = limit, iterations = Suc n\<rparr>
           | Some lambda1 \<Rightarrow>
               (if \<bar>lambda1 - lambda0\<bar> > 1 / 10 ^ 12 then
                  (if limit - 1 > 0
                   then vincentyLoop f L sinU1 cosU1 sinU2 cosU2 lambda1 (limit - 1) (Suc n)
                   else Some \<lparr>vars = v, lambdaP = lambda0, iterLimit = limit - 1, iterations = Suc n\<rparr>)
                else Some \<lparr>vars = v, lambdaP = lambda0, iterLimit = limit, iterations = Suc n\<rparr>)))"

declare vincentyLoop.simps [simp del]

text \<open>\<^verbatim>\<open>s.toFixed(3)\<close>: the nearest multiple of 1/1000, a tie going away from 0.\<close>

definition toFixed3 :: "real \<Rightarrow> real" where
  "toFixed3 s = (if s < 0 then - (of_int \<lfloor>- s * 1000 + 1 / 2\<rfloor> / 1000)
                 else of_int \<lfloor>s * 1000 + 1 / 2\<rfloor> / 1000)"

text \<open>
  The code of \<^verbatim>\<open>LatLonToKM\<close> up to the end of the loop. The flattening is the
  constant of the source, \<^verbatim>\<open>var f = 0; //(a - b) / a\<close>.
\<close>

definition vincentyRun :: "real \<Rightarrow> real \<Rightarrow> real \<Rightarrow> real \<Rightarrow> vincentyExit option" where
  "vincentyRun lat1 lon1 lat2 lon2 =
     (let f = 0;
          L = toRad (lon2 - lon1);
          U1 = reducedLatitude f lat1;
          U2 = reducedLatitude f lat2;
          sinU1 = sin U1; cosU1 = cos U1;
          sinU2 = sin U2; cosU2 = cos U2
      in vincentyLoop f L sinU1 cosU1 sinU2 cosU2 L 100 0)"

text \<open>
  \<^verbatim>\<open>LatLonToKM\<close>. After the loop a value that is not finite, or a polar radius of 0,
  makes the distance \<^verbatim>\<open>NaN\<close>.
\<close>

definition LatLonToKM :: "real \<Rightarrow> real \<Rightarrow> real \<Rightarrow> real \<Rightarrow> real \<Rightarrow> real \<Rightarrow> km" where
  "LatLonToKM lat1 lon1 lat2 lon2 aaxisradius caxisradius =
     (let a = aaxisradius; b = caxisradius
      in case vincentyRun lat1 lon1 lat2 lon2 of
           None \<Rightarrow> Km 0
         | Some e \<Rightarrow>
             (if iterLimit e = 0 then NaN
              else
                (case (cos2SigmaM (vars e), lambda (vars e)) of
                   (Some c2, Some lambda1) \<Rightarrow>
                     (if b = 0 then NaN
                      else
                        (let uSq = cosSqAlpha (vars e) * (a * a - b * b) / (b * b);
                             A = 1 + uSq / 16384 * (4096 + uSq * (- 768 + uSq * (320 - 175 * uSq)));
                             B = uSq / 1024 * (256 + uSq * (- 128 + uSq * (74 - 47 * uSq)));
                             deltaSigma = B * sinSigma (vars e) *
                               (c2 + B / 4 * (cosSigma (vars e) * (- 1 + 2 * c2 * c2) -
                                  B / 6 * c2 * (- 3 + 4 * sinSigma (vars e) * sinSigma (vars e)) *
                                    (- 3 + 4 * c2 * c2)));
                             s = b * A * (sigma (vars e) - deltaSigma)
                         in Km (toFixed3 s)))
                 | _ \<Rightarrow> NaN)))"

subsection \<open>Predicates of the specification\<close>

text \<open>
  The canonical longitude domain in the words of the specification: the half-open
  interval from 0 to 360.
\<close>

definition spec_lon_canonical :: "pt \<Rightarrow> bool" where
  "spec_lon_canonical p = (0 \<le> fst p \<and> fst p < 360)"

text \<open>The largest and the smallest latitude of a geometry that has coordinates.\<close>

definition spec_maxLatitude :: "geometry \<Rightarrow> real" where
  "spec_maxLatitude g = Max (snd ` set (allPoints g))"

definition spec_minLatitude :: "geometry \<Rightarrow> real" where
  "spec_minLatitude g = Min (snd ` set (allPoints g))"

text \<open>
  The point at the fraction \<open>k/16\<close> of the straight edge from \<open>p\<close> to \<open>q\<close> in
  longitude/latitude space, and the sixteen of them for \<open>k = 0, \<dots>, 15\<close>: the start
  of the edge and fifteen points strictly inside it.
\<close>

definition spec_edgePoint :: "pt \<Rightarrow> pt \<Rightarrow> nat \<Rightarrow> pt" where
  "spec_edgePoint p q k =
     (fst p + real k / 16 * (fst q - fst p), snd p + real k / 16 * (snd q - snd p))"

definition spec_edgePoints :: "pt \<Rightarrow> pt \<Rightarrow> pt list" where
  "spec_edgePoints p q = map (spec_edgePoint p q) [0..<16]"




text \<open>
  The result that the specification expects for a geometry that does not cross: the
  geometry itself, or the geometry as the only child of a multi-geometry.
\<close>

definition spec_unchangedOrWrapped :: "geometry \<Rightarrow> failure + geometry \<Rightarrow> bool" where
  "spec_unchangedOrWrapped g r =
     (r = Inr g \<or>
      (case g of
         Polygon ring \<Rightarrow> r = Inr (MultiPolygon [ring])
       | LineString line \<Rightarrow> r = Inr (MultiLineString [line])
       | _ \<Rightarrow> False))"

text \<open>No two consecutive points of the list differ by more than 180 in longitude.\<close>

fun noJumps :: "pt list \<Rightarrow> bool" where
  "noJumps [] = True"
| "noJumps [p] = True"
| "noJumps (p # q # rest) = (\<not> jumps p q \<and> noJumps (q # rest))"

text \<open>
  The geometry that \<^verbatim>\<open>draw\<close> stores as \<^verbatim>\<open>searchWKT\<close>, read off its code: under the
  cylindrical projection the input, undangled when the test on its extent holds
  (\<open>None\<close> when undangling does not return); under a polar projection the input
  rounded to two decimals.
\<close>

definition searchRule :: "projection \<Rightarrow> geometry \<Rightarrow> geometry option" where
  "searchRule proj g =
     (if proj = Cylindrical then (if needsUndangle (getExtent g) then undangle g else Some g)
      else Some (decimals2 g))"

definition lonInClosedRange :: "pt \<Rightarrow> bool" where
  "lonInClosedRange p = (0 \<le> fst p \<and> fst p \<le> 360)"

text \<open>
  An entry of \<^verbatim>\<open>storedVectors\<close> after \<^verbatim>\<open>redraw\<close>, against the entry before: a removed
  entry stays removed; a stored vector is kept as it is or replaced by a state whose
  \<^verbatim>\<open>searchWKT\<close> is the search geometry of the old \<^verbatim>\<open>searchWKT\<close>.
\<close>

definition redrawnFrom :: "projection \<Rightarrow> vectorState option \<Rightarrow> vectorState option \<Rightarrow> bool" where
  "redrawnFrom proj old new =
     (case (old, new) of
        (None, None) \<Rightarrow> True
      | (Some v, Some v') \<Rightarrow>
          v' = v \<or>
          (case searchWKT v of
             Wkt g \<Rightarrow> map_option Wkt (searchRule proj g) = Some (searchWKT v')
           | _ \<Rightarrow> False)
      | _ \<Rightarrow> False)"

section \<open>Properties\<close>

subsection \<open>Undangling\<close>

text \<open>
  The first loop of \<^verbatim>\<open>transformDanglers\<close>: what it returns when it returns. It
  returns only from a longitude that is not below \<open>-2\<^sup>6\<^sup>2\<close>.
\<close>

lemma danglers_up_result:
  assumes "danglers_up x = Some y"
  shows "0 \<le> y \<and> (x < 0 \<longrightarrow> y < 360) \<and> (0 \<le> x \<longrightarrow> y = x) \<and>
         (\<exists>k::int. y = x + 360 * real_of_int k) \<and> - (2 ^ 62) \<le> x"
  using assms
proof (induction x y rule: danglers_up.raw_induct [rotated 1, consumes 1])
  case (1 f x y)
  show ?case
  proof (cases "x < 0")
    case True
    with 1(2) have r: "f (plus360 x) = Some y" by simp
    have "0 \<le> y \<and> (plus360 x < 0 \<longrightarrow> y < 360) \<and> (0 \<le> plus360 x \<longrightarrow> y = plus360 x) \<and>
      (\<exists>k::int. y = plus360 x + 360 * real_of_int k) \<and> - (2 ^ 62) \<le> plus360 x"
      using r by (rule 1(1))
    then have ih: "0 \<le> y" "plus360 x < 0 \<longrightarrow> y < 360" "0 \<le> plus360 x \<longrightarrow> y = plus360 x"
      "\<exists>k::int. y = plus360 x + 360 * real_of_int k" "- (2 ^ 62) \<le> plus360 x" by blast+
    have nb: "\<not> x < - (2 ^ 62)"
    proof
      assume a: "x < - (2 ^ 62)"
      then have "plus360 x = x" by (simp add: plus360_def)
      with ih(5) a show False by simp
    qed
    then have p: "plus360 x = x + 360" by (simp add: plus360_def)
    from ih(4) obtain k :: int where "y = x + 360 + 360 * real_of_int k" unfolding p by blast
    then have "y = x + 360 * real_of_int (k + 1)" by simp
    then have ex: "\<exists>k::int. y = x + 360 * real_of_int k" by blast
    have "y < 360" using ih(2,3) True unfolding p by (cases "x + 360 < 0") auto
    then show ?thesis using ih(1) True ex nb by simp
  next
    case False
    with 1(2) have "y = x" by simp
    then have "y = x + 360 * real_of_int 0" by simp
    then have "\<exists>k::int. y = x + 360 * real_of_int k" by blast
    then show ?thesis using False \<open>y = x\<close> by simp
  qed
qed

text \<open>The first loop returns from every longitude that is not below \<open>-2\<^sup>6\<^sup>2\<close>.\<close>

lemma danglers_up_returns:
  "- (2 ^ 62) \<le> x \<Longrightarrow> \<exists>y. danglers_up x = Some y"
proof (induction "nat \<lceil>- x\<rceil>" arbitrary: x rule: less_induct)
  case less
  show ?case
  proof (cases "x < 0")
    case True
    have p: "plus360 x = x + 360" using less(2) by (simp add: plus360_def)
    have "- (x + 360) = - x - 360" by simp
    then have "\<lceil>- (x + 360)\<rceil> = \<lceil>- x\<rceil> - 360" by (simp only: ceiling_diff_numeral)
    moreover from True have "0 < \<lceil>- x\<rceil>" by simp
    ultimately have m: "nat \<lceil>- (x + 360)\<rceil> < nat \<lceil>- x\<rceil>" by simp
    have "\<exists>y. danglers_up (x + 360) = Some y" using less(1) [OF m] less(2) by simp
    then show ?thesis using True p by (subst danglers_up.simps) simp
  next
    case False
    then show ?thesis by (subst danglers_up.simps) simp
  qed
qed

text \<open>The second loop, likewise: it returns only from a longitude that is not above \<open>2\<^sup>6\<^sup>2\<close>.\<close>

lemma danglers_down_result:
  assumes "danglers_down x = Some y"
  shows "y \<le> 360 \<and> (360 < x \<longrightarrow> 0 < y) \<and> (x \<le> 360 \<longrightarrow> y = x) \<and>
         (\<exists>k::int. y = x + 360 * real_of_int k) \<and> x \<le> 2 ^ 62"
  using assms
proof (induction x y rule: danglers_down.raw_induct [rotated 1, consumes 1])
  case (1 f x y)
  show ?case
  proof (cases "360 < x")
    case True
    with 1(2) have r: "f (minus360 x) = Some y" by simp
    have "y \<le> 360 \<and> (360 < minus360 x \<longrightarrow> 0 < y) \<and> (minus360 x \<le> 360 \<longrightarrow> y = minus360 x) \<and>
      (\<exists>k::int. y = minus360 x + 360 * real_of_int k) \<and> minus360 x \<le> 2 ^ 62"
      using r by (rule 1(1))
    then have ih: "y \<le> 360" "360 < minus360 x \<longrightarrow> 0 < y" "minus360 x \<le> 360 \<longrightarrow> y = minus360 x"
      "\<exists>k::int. y = minus360 x + 360 * real_of_int k" "minus360 x \<le> 2 ^ 62" by blast+
    have nb: "\<not> 2 ^ 62 < x"
    proof
      assume a: "2 ^ 62 < x"
      then have "minus360 x = x" by (simp add: minus360_def)
      with ih(5) a show False by simp
    qed
    then have p: "minus360 x = x - 360" by (simp add: minus360_def)
    from ih(4) obtain k :: int where "y = x - 360 + 360 * real_of_int k" unfolding p by blast
    then have "y = x + 360 * real_of_int (k - 1)" by simp
    then have ex: "\<exists>k::int. y = x + 360 * real_of_int k" by blast
    have "0 < y" using ih(2,3) True unfolding p by (cases "360 < x - 360") auto
    then show ?thesis using ih(1) True ex nb by simp
  next
    case False
    with 1(2) have "y = x" by simp
    then have "y = x + 360 * real_of_int 0" by simp
    then have "\<exists>k::int. y = x + 360 * real_of_int k" by blast
    then show ?thesis using False \<open>y = x\<close> by simp
  qed
qed

lemma danglers_down_returns:
  "x \<le> 2 ^ 62 \<Longrightarrow> \<exists>y. danglers_down x = Some y"
proof (induction "nat \<lceil>x\<rceil>" arbitrary: x rule: less_induct)
  case less
  show ?case
  proof (cases "360 < x")
    case True
    have p: "minus360 x = x - 360" using less(2) by (simp add: minus360_def)
    have "\<lceil>x - 360\<rceil> = \<lceil>x\<rceil> - 360" by (simp only: ceiling_diff_numeral)
    moreover from True have "0 < \<lceil>x\<rceil>" by simp
    ultimately have m: "nat \<lceil>x - 360\<rceil> < nat \<lceil>x\<rceil>" by simp
    have "\<exists>y. danglers_down (x - 360) = Some y" using less(1) [OF m] less(2) by simp
    then show ?thesis using True p by (subst danglers_down.simps) simp
  next
    case False
    then show ?thesis by (subst danglers_down.simps) simp
  qed
qed

text \<open>\<^verbatim>\<open>transformDanglers\<close> on one coordinate: its result, and when it returns.\<close>

lemma transformDanglers_point:
  assumes "transformDanglers p = Some q"
  shows "snd q = snd p \<and> 0 \<le> fst q \<and> fst q \<le> 360 \<and>
         (\<exists>k::int. fst q = fst p + 360 * real_of_int k) \<and>
         (0 \<le> fst p \<and> fst p \<le> 360 \<longrightarrow> q = p) \<and>
         - (2 ^ 62) \<le> fst p \<and> fst p \<le> 2 ^ 62"
proof -
  from assms obtain u where u: "danglers_up (fst p) = Some u"
    by (cases "danglers_up (fst p)") (simp_all add: transformDanglers_def)
  with assms obtain d where d: "danglers_down u = Some d" and q: "q = (d, snd p)"
    by (cases "danglers_down u") (simp_all add: transformDanglers_def)
  note U = danglers_up_result [OF u]
  note D = danglers_down_result [OF d]
  from U obtain k1 :: int where k1: "u = fst p + 360 * real_of_int k1" by blast
  from D obtain k2 :: int where k2: "d = u + 360 * real_of_int k2" by blast
  have "d = fst p + 360 * real_of_int (k1 + k2)" using k1 k2 by simp
  then have ex: "\<exists>k::int. d = fst p + 360 * real_of_int k" by blast
  have lo: "0 \<le> d" using U D by (cases "360 < u") auto
  have hi: "fst p \<le> 2 ^ 62"
  proof (cases "0 \<le> fst p")
    case True
    then have "u = fst p" using U by blast
    then show ?thesis using D by simp
  next
    case False
    then show ?thesis by simp
  qed
  have same: "0 \<le> fst p \<and> fst p \<le> 360 \<longrightarrow> d = fst p" using U D by auto
  show ?thesis using lo D ex same U hi by (simp add: q prod_eq_iff)
qed

lemma transformDanglers_returns:
  assumes "- (2 ^ 62) \<le> fst p" and "fst p \<le> 2 ^ 62"
  shows "\<exists>q. transformDanglers p = Some q"
proof -
  from danglers_up_returns [OF assms(1)] obtain u where u: "danglers_up (fst p) = Some u" by blast
  note U = danglers_up_result [OF u]
  have "u \<le> 2 ^ 62"
  proof (cases "fst p < 0")
    case True
    then have "u < 360" using U by blast
    then show ?thesis by simp
  next
    case False
    then have "u = fst p" using U by simp
    then show ?thesis using assms(2) by simp
  qed
  from danglers_down_returns [OF this] obtain d where "danglers_down u = Some d" by blast
  then show ?thesis using u by (simp add: transformDanglers_def)
qed

text \<open>
  Outside these bounds the call never returns: below \<open>-2\<^sup>6\<^sup>2\<close> the first loop
  adds 360 to no effect, above \<open>2\<^sup>6\<^sup>2\<close> the second subtracts it to no effect.
\<close>

lemma transformDanglers_no_return:
  "fst p < - (2 ^ 62) \<or> 2 ^ 62 < fst p \<Longrightarrow> transformDanglers p = None"
  using transformDanglers_point [of p] by (cases "transformDanglers p") force+

text \<open>A coordinate function applied along a list and along a geometry.\<close>

lemma mapOption_Some:
  "mapOption f xs = Some ys \<longleftrightarrow> list_all2 (\<lambda>x y. f x = Some y) xs ys"
proof (induction xs arbitrary: ys)
  case Nil
  then show ?case by auto
next
  case (Cons x xs)
  show ?case
  proof (cases "f x")
    case None
    then show ?thesis by (auto simp: list_all2_Cons1)
  next
    case (Some y)
    show ?thesis
    proof (cases "mapOption f xs")
      case None
      with Cons [of "tl ys"] Some show ?thesis by (auto simp: list_all2_Cons1 Cons)
    next
      case (Some zs)
      with Cons \<open>f x = Some y\<close> show ?thesis by (auto simp: list_all2_Cons1)
    qed
  qed
qed

lemma mapOption_returns:
  "(\<And>x. x \<in> set xs \<Longrightarrow> \<exists>y. f x = Some y) \<Longrightarrow> \<exists>ys. mapOption f xs = Some ys"
proof (induction xs)
  case Nil
  then show ?case by simp
next
  case (Cons x xs)
  from Cons(2) [of x] obtain y where y: "f x = Some y" by auto
  from Cons(1) Cons(2) obtain ys where "mapOption f xs = Some ys" by auto
  with y show ?case by simp
qed

lemma list_all2_concat:
  "list_all2 (list_all2 P) xss yss \<Longrightarrow> list_all2 P (concat xss) (concat yss)"
  by (induction xss yss rule: list_all2_induct) (auto intro: list_all2_appendI)

lemma transformOption_Some:
  assumes "transformOption f g = Some g'"
  shows "typeTag g' = typeTag g \<and> list_all2 (\<lambda>p q. f p = Some q) (allPoints g) (allPoints g')"
proof (cases g)
  case (Point p)
  with assms show ?thesis by auto
next
  case (MultiPoint ps)
  with assms show ?thesis by (auto simp: mapOption_Some)
next
  case (LineString ps)
  with assms show ?thesis by (auto simp: mapOption_Some)
next
  case (MultiLineString pss)
  with assms obtain qss where q: "g' = MultiLineString qss"
    and "list_all2 (\<lambda>ps qs. mapOption f ps = Some qs) pss qss" by (auto simp: mapOption_Some)
  then have "list_all2 (list_all2 (\<lambda>p q. f p = Some q)) pss qss" by (simp add: mapOption_Some)
  from list_all2_concat [OF this] show ?thesis using q MultiLineString by simp
next
  case (Polygon ps)
  with assms show ?thesis by (auto simp: mapOption_Some)
next
  case (MultiPolygon pss)
  with assms obtain qss where q: "g' = MultiPolygon qss"
    and "list_all2 (\<lambda>ps qs. mapOption f ps = Some qs) pss qss" by (auto simp: mapOption_Some)
  then have "list_all2 (list_all2 (\<lambda>p q. f p = Some q)) pss qss" by (simp add: mapOption_Some)
  from list_all2_concat [OF this] show ?thesis using q MultiPolygon by simp
qed

lemma transformOption_returns:
  assumes "\<And>p. p \<in> set (allPoints g) \<Longrightarrow> \<exists>q. f p = Some q"
  shows "\<exists>g'. transformOption f g = Some g'"
proof (cases g)
  case (Point p)
  with assms [of p] show ?thesis by auto
next
  case (MultiPoint ps)
  with assms mapOption_returns [of ps f] show ?thesis by auto
next
  case (LineString ps)
  with assms mapOption_returns [of ps f] show ?thesis by auto
next
  case (MultiLineString pss)
  have "\<exists>qs. mapOption f ps = Some qs" if "ps \<in> set pss" for ps
  proof (rule mapOption_returns)
    fix p assume "p \<in> set ps"
    with that have "p \<in> set (allPoints g)" using MultiLineString by auto
    then show "\<exists>q. f p = Some q" by (rule assms)
  qed
  from mapOption_returns [of pss "mapOption f", OF this] MultiLineString show ?thesis by auto
next
  case (Polygon ps)
  with assms mapOption_returns [of ps f] show ?thesis by auto
next
  case (MultiPolygon pss)
  have "\<exists>qs. mapOption f ps = Some qs" if "ps \<in> set pss" for ps
  proof (rule mapOption_returns)
    fix p assume "p \<in> set ps"
    with that have "p \<in> set (allPoints g)" using MultiPolygon by auto
    then show "\<exists>q. f p = Some q" by (rule assms)
  qed
  from mapOption_returns [of pss "mapOption f", OF this] MultiPolygon show ?thesis by auto
qed

text \<open>
  \<^verbatim>\<open>undangle\<close>, when it returns: the type, the number and order of the coordinates
  and the latitudes are kept, and each coordinate is the result of
  \<^verbatim>\<open>transformDanglers\<close> on the coordinate at its place.
\<close>

lemma undangle_result:
  assumes "undangle g = Some g'"
  shows "typeTag g' = typeTag g \<and> length (allPoints g') = length (allPoints g) \<and>
         map snd (allPoints g') = map snd (allPoints g) \<and>
         (\<forall>i < length (allPoints g). transformDanglers (allPoints g ! i) = Some (allPoints g' ! i))"
proof -
  from transformOption_Some [OF assms [unfolded undangle_def]]
  have t: "typeTag g' = typeTag g"
    and a: "list_all2 (\<lambda>p q. transformDanglers p = Some q) (allPoints g) (allPoints g')" by blast+
  from a have l: "length (allPoints g') = length (allPoints g)"
    and n: "\<forall>i < length (allPoints g). transformDanglers (allPoints g ! i) = Some (allPoints g' ! i)"
    by (auto simp: list_all2_conv_all_nth)
  have "map snd (allPoints g') = map snd (allPoints g)"
    using l n transformDanglers_point by (auto simp: list_eq_iff_nth_eq)
  with t l n show ?thesis by blast
qed

lemma undangle_returns:
  assumes "\<And>p. p \<in> set (allPoints g) \<Longrightarrow> - (2 ^ 62) \<le> fst p \<and> fst p \<le> 2 ^ 62"
  shows "\<exists>g'. undangle g = Some g'"
  unfolding undangle_def using assms by (intro transformOption_returns transformDanglers_returns) auto

text \<open>
  \<^verbatim>\<open>undangle\<close> does not return when a longitude of the geometry is below \<open>-2\<^sup>6\<^sup>2\<close> or
  above \<open>2\<^sup>6\<^sup>2\<close>.
\<close>

lemma undangle_no_return:
  assumes "p \<in> set (allPoints g)" and "fst p < - (2 ^ 62) \<or> 2 ^ 62 < fst p"
  shows "undangle g = None"
proof (cases "undangle g")
  case None
  then show ?thesis .
next
  case (Some g')
  from assms(1) obtain i where i: "i < length (allPoints g)" "allPoints g ! i = p"
    by (auto simp: in_set_conv_nth)
  with undangle_result [OF Some] have "transformDanglers p = Some (allPoints g' ! i)" by auto
  with transformDanglers_no_return [OF assms(2)] show ?thesis by simp
qed

lemma allPoints_transform: "allPoints (transform f g) = map f (allPoints g)"
  by (cases g) (simp_all add: map_concat)

lemma typeTag_transform: "typeTag (transform f g) = typeTag g"
  by (cases g) simp_all

text \<open>
  C7, as the code has it. For a geometry whose longitudes are all between \<open>-2\<^sup>5\<^sup>3\<close>
  and \<open>2\<^sup>5\<^sup>3\<close>, \<^verbatim>\<open>undangle\<close> returns; the result keeps the type of the geometry, the
  number and order of its coordinates and every latitude. Every longitude is moved
  by a whole multiple of 360 into the closed interval from 0 to 360: the second
  loop of \<^verbatim>\<open>transformDanglers\<close> runs while \<^verbatim>\<open>x > 360\<close>, so 360 itself stays. A
  coordinate whose longitude is already in that interval is unchanged.
\<close>

theorem undangle_closed_range:
  assumes "\<forall>p \<in> set (allPoints g). - (2 ^ 53) \<le> fst p \<and> fst p \<le> 2 ^ 53"
  shows "\<exists>g'. undangle g = Some g' \<and>
     typeTag g' = typeTag g \<and>
     length (allPoints g') = length (allPoints g) \<and>
     map snd (allPoints g') = map snd (allPoints g) \<and>
     (\<forall>i < length (allPoints g).
        0 \<le> fst (allPoints g' ! i) \<and> fst (allPoints g' ! i) \<le> 360 \<and>
        (\<exists>k::int. fst (allPoints g' ! i) = fst (allPoints g ! i) + 360 * real_of_int k) \<and>
        (0 \<le> fst (allPoints g ! i) \<and> fst (allPoints g ! i) \<le> 360
           \<longrightarrow> allPoints g' ! i = allPoints g ! i))"
proof -
  have "- (2 ^ 62) \<le> fst p \<and> fst p \<le> 2 ^ 62" if "p \<in> set (allPoints g)" for p
  proof -
    from that assms have "- (2 ^ 53) \<le> fst p" "fst p \<le> 2 ^ 53" by auto
    moreover have "(2 :: real) ^ 53 \<le> 2 ^ 62" by simp
    ultimately show ?thesis by linarith
  qed
  from undangle_returns [of g, OF this] obtain g' where g': "undangle g = Some g'" by blast
  note R = undangle_result [OF g']
  have "\<forall>i < length (allPoints g).
        0 \<le> fst (allPoints g' ! i) \<and> fst (allPoints g' ! i) \<le> 360 \<and>
        (\<exists>k::int. fst (allPoints g' ! i) = fst (allPoints g ! i) + 360 * real_of_int k) \<and>
        (0 \<le> fst (allPoints g ! i) \<and> fst (allPoints g ! i) \<le> 360
           \<longrightarrow> allPoints g' ! i = allPoints g ! i)"
  proof (intro allI impI)
    fix i assume "i < length (allPoints g)"
    with R have "transformDanglers (allPoints g ! i) = Some (allPoints g' ! i)" by blast
    from transformDanglers_point [OF this]
    show "0 \<le> fst (allPoints g' ! i) \<and> fst (allPoints g' ! i) \<le> 360 \<and>
        (\<exists>k::int. fst (allPoints g' ! i) = fst (allPoints g ! i) + 360 * real_of_int k) \<and>
        (0 \<le> fst (allPoints g ! i) \<and> fst (allPoints g ! i) \<le> 360
           \<longrightarrow> allPoints g' ! i = allPoints g ! i)" by blast
  qed
  with g' R show ?thesis by blast
qed

text \<open>The statement of C7 at a line with longitudes below 0, above 360 and at 360.\<close>

theorem undangle_closed_range_witness:
  "- (2 ^ 53) \<le> (- 10 :: real) \<and> (370 :: real) \<le> 2 ^ 53 \<and>
   undangle (LineString [(- 10, 5), (370, 6), (360, 7)]) = Some (LineString [(350, 5), (10, 6), (360, 7)]) \<and>
   typeTag (LineString [(350, 5), (10, 6), (360, 7)]) = typeTag (LineString [(- 10, 5), (370, 6), (360, 7)]) \<and>
   map snd (allPoints (LineString [(350, 5), (10, 6), (360, 7)])) = [5, 6, 7]"
  using undangle_closed_range [of "LineString [(- 10, 5), (370, 6), (360, 7)]"]
  by (simp add: undangle_def transformDanglers_def danglers_up.simps danglers_down.simps
      plus360_def minus360_def)

text \<open>
  C7 as the specification states it (the half-open interval) fails at longitude 360:
  the point (360, 0) is returned as it is.
\<close>

theorem undangle_keeps_360:
  "undangle (Point (360, 0)) = Some (Point (360, 0)) \<and>
   \<not> list_all spec_lon_canonical (allPoints (Point (360, 0)))"
  by (simp add: undangle_def transformDanglers_def spec_lon_canonical_def
      danglers_up.simps danglers_down.simps)

text \<open>At longitude \<open>-10\<^sup>2\<^sup>0\<close> the call does not return.\<close>

lemma undangle_no_return_example: "undangle (Point (- (10 ^ 20), 0)) = None"
  by (rule undangle_no_return [of "(- (10 ^ 20), 0)"]) simp_all

subsection \<open>Dateline crossing of points\<close>

lemma polar_pole: "transformLatLonToPolarMeters (lon, 90) NorthPolar caxis = (0, 0)"
  by (simp add: transformLatLonToPolarMeters_def Let_def)

text \<open>The cylindrical branch returns false for every POINT and MULTIPOINT.\<close>

lemma crossesDateline_point_cylindrical:
  "\<not> crossesDateline caxis (Point p) Cylindrical \<and>
   \<not> crossesDateline caxis (MultiPoint ps) Cylindrical"
  by (simp add: crossesDateline_def extractGeometryType_def)

text \<open>
  C4 on the code. The cylindrical branch of \<^verbatim>\<open>crossesDateline\<close> returns false for a
  POINT or MULTIPOINT, as the comment above the function promises for every
  projection. The polar branch has no such test: a point on the dateline meridian is
  projected onto the dateline segment and the function returns true. This holds at the
  north pole for every radius, and at latitude 80 on the meridian 0 for a polar radius
  of 1000 km.
\<close>

theorem crossesDateline_point_polar:
  "crossesDateline caxis (Point (0, 90)) NorthPolar = True \<and>
   crossesDateline caxis (MultiPoint [(0, 90)]) NorthPolar = True \<and>
   crossesDateline 1000 (Point (0, 80)) NorthPolar = True"
proof -
  have a: "crossesDateline caxis (Point (0, 90)) NorthPolar"
    by (simp add: crossesDateline_def Let_def polar_pole getExtent_def extentOf_def intersectsExtent_def)
  have b: "crossesDateline caxis (MultiPoint [(0, 90)]) NorthPolar"
    by (simp add: crossesDateline_def Let_def polar_pole getExtent_def extentOf_def intersectsExtent_def)
  have t0: "0 < tan (pi / 36)" by (rule tan_gt_zero) (simp_all add: pi_gt_zero)
  have t1: "tan (pi / 36) < 1" using tan_monotone' [of "pi / 36" "pi / 4"] by (simp add: tan_45)
  have ang: "pi / 4 - 80 * pi / 180 / 2 = pi / 36" by simp
  have p: "transformLatLonToPolarMeters (0, 80) NorthPolar 1000 = (0, - 2 * 1000000 * tan (pi / 36))"
    by (simp add: transformLatLonToPolarMeters_def Let_def ang)
  have c: "crossesDateline 1000 (Point (0, 80)) NorthPolar"
    using t0 t1
    by (simp add: crossesDateline_def Let_def p getExtent_def extentOf_def intersectsExtent_def)
  from a b c show ?thesis by simp
qed

subsection \<open>Extents\<close>

lemma foldl_extend_Extent:
  "\<exists>a' b' c' d'. foldl extendCoordinate (Extent a b c d) ps = Extent a' b' c' d' \<and>
     (\<forall>t. t < a' \<longleftrightarrow> t < a \<and> (\<forall>p\<in>set ps. t < fst p)) \<and>
     (\<forall>t. t < b' \<longleftrightarrow> t < b \<and> (\<forall>p\<in>set ps. t < snd p)) \<and>
     (\<forall>t. c' < t \<longleftrightarrow> c < t \<and> (\<forall>p\<in>set ps. fst p < t)) \<and>
     (\<forall>t. d' < t \<longleftrightarrow> d < t \<and> (\<forall>p\<in>set ps. snd p < t))"
proof (induction ps arbitrary: a b c d)
  case Nil
  show ?case by simp
next
  case (Cons p ps)
  obtain a' b' c' d' where
    e: "foldl extendCoordinate (Extent (min a (fst p)) (min b (snd p)) (max c (fst p)) (max d (snd p))) ps
          = Extent a' b' c' d'"
    and A: "\<forall>t. t < a' \<longleftrightarrow> t < min a (fst p) \<and> (\<forall>q\<in>set ps. t < fst q)"
    and B: "\<forall>t. t < b' \<longleftrightarrow> t < min b (snd p) \<and> (\<forall>q\<in>set ps. t < snd q)"
    and C: "\<forall>t. c' < t \<longleftrightarrow> max c (fst p) < t \<and> (\<forall>q\<in>set ps. fst q < t)"
    and D: "\<forall>t. d' < t \<longleftrightarrow> max d (snd p) < t \<and> (\<forall>q\<in>set ps. snd q < t)"
    using Cons.IH [of "min a (fst p)" "min b (snd p)" "max c (fst p)" "max d (snd p)"] by blast
  have "foldl extendCoordinate (Extent a b c d) (p # ps) = Extent a' b' c' d'" using e by simp
  moreover have "\<forall>t. t < a' \<longleftrightarrow> t < a \<and> (\<forall>q\<in>set (p # ps). t < fst q)" using A by auto
  moreover have "\<forall>t. t < b' \<longleftrightarrow> t < b \<and> (\<forall>q\<in>set (p # ps). t < snd q)" using B by auto
  moreover have "\<forall>t. c' < t \<longleftrightarrow> c < t \<and> (\<forall>q\<in>set (p # ps). fst q < t)" using C by auto
  moreover have "\<forall>t. d' < t \<longleftrightarrow> d < t \<and> (\<forall>q\<in>set (p # ps). snd q < t)" using D by auto
  ultimately show ?case by blast
qed

lemma extentOf_nonempty:
  assumes "ps \<noteq> []"
  shows "\<exists>a b c d. extentOf ps = Extent a b c d \<and>
     (\<forall>t. t < a \<longleftrightarrow> (\<forall>p\<in>set ps. t < fst p)) \<and>
     (\<forall>t. t < b \<longleftrightarrow> (\<forall>p\<in>set ps. t < snd p)) \<and>
     (\<forall>t. c < t \<longleftrightarrow> (\<forall>p\<in>set ps. fst p < t)) \<and>
     (\<forall>t. d < t \<longleftrightarrow> (\<forall>p\<in>set ps. snd p < t))"
proof -
  from assms obtain p qs where ps: "ps = p # qs" by (cases ps) auto
  obtain a b c d where
    e: "foldl extendCoordinate (Extent (fst p) (snd p) (fst p) (snd p)) qs = Extent a b c d"
    and A: "\<forall>t. t < a \<longleftrightarrow> t < fst p \<and> (\<forall>q\<in>set qs. t < fst q)"
    and B: "\<forall>t. t < b \<longleftrightarrow> t < snd p \<and> (\<forall>q\<in>set qs. t < snd q)"
    and C: "\<forall>t. c < t \<longleftrightarrow> fst p < t \<and> (\<forall>q\<in>set qs. fst q < t)"
    and D: "\<forall>t. d < t \<longleftrightarrow> snd p < t \<and> (\<forall>q\<in>set qs. snd q < t)"
    using foldl_extend_Extent [of "fst p" "snd p" "fst p" "snd p" qs] by blast
  have "extentOf ps = Extent a b c d" using e by (simp add: extentOf_def ps)
  moreover have "\<forall>t. t < a \<longleftrightarrow> (\<forall>q\<in>set ps. t < fst q)" using A by (simp add: ps)
  moreover have "\<forall>t. t < b \<longleftrightarrow> (\<forall>q\<in>set ps. t < snd q)" using B by (simp add: ps)
  moreover have "\<forall>t. c < t \<longleftrightarrow> (\<forall>q\<in>set ps. fst q < t)" using C by (simp add: ps)
  moreover have "\<forall>t. d < t \<longleftrightarrow> (\<forall>q\<in>set ps. snd q < t)" using D by (simp add: ps)
  ultimately show ?thesis by blast
qed

subsection \<open>Drawability\<close>

text \<open>
  C5, as the code has it. Every geometry is drawable under the cylindrical projection.
  Under the north polar projection \<^verbatim>\<open>isDrawable\<close> compares the y of the bottom right
  corner of the extent with 60, so a geometry with coordinates is drawable exactly
  when its smallest latitude exceeds 60, that is when all of it lies above 60; under
  the south polar projection exactly when its largest latitude is below -60. For a
  point the two readings agree: latitude 61 is drawable in the north and 59 is not,
  and -61 is drawable in the south and -59 is not.
\<close>

theorem isDrawable_whole_geometry:
  "isDrawable Cylindrical g \<and>
   (allPoints g \<noteq> [] \<longrightarrow>
      (isDrawable NorthPolar g \<longleftrightarrow> (\<forall>p \<in> set (allPoints g). 60 < snd p)) \<and>
      (isDrawable NorthPolar g \<longleftrightarrow> 60 < spec_minLatitude g) \<and>
      (isDrawable SouthPolar g \<longleftrightarrow> (\<forall>p \<in> set (allPoints g). snd p < - 60)) \<and>
      (isDrawable SouthPolar g \<longleftrightarrow> spec_maxLatitude g < - 60)) \<and>
   isDrawable NorthPolar (Point (lon, 61)) \<and> \<not> isDrawable NorthPolar (Point (lon, 59)) \<and>
   isDrawable SouthPolar (Point (lon, - 61)) \<and> \<not> isDrawable SouthPolar (Point (lon, - 59))"
proof -
  have cyl: "isDrawable Cylindrical g" by (simp add: isDrawable_def)
  have pts: "isDrawable NorthPolar (Point (lon, 61)) \<and> \<not> isDrawable NorthPolar (Point (lon, 59)) \<and>
   isDrawable SouthPolar (Point (lon, - 61)) \<and> \<not> isDrawable SouthPolar (Point (lon, - 59))"
    by (simp add: isDrawable_def getExtent_def extentOf_def)
  have gen: "(isDrawable NorthPolar g \<longleftrightarrow> (\<forall>p \<in> set (allPoints g). 60 < snd p)) \<and>
      (isDrawable NorthPolar g \<longleftrightarrow> 60 < spec_minLatitude g) \<and>
      (isDrawable SouthPolar g \<longleftrightarrow> (\<forall>p \<in> set (allPoints g). snd p < - 60)) \<and>
      (isDrawable SouthPolar g \<longleftrightarrow> spec_maxLatitude g < - 60)" if ne: "allPoints g \<noteq> []"
  proof -
    obtain a b c d where e: "extentOf (allPoints g) = Extent a b c d"
      and B: "\<forall>t. t < b \<longleftrightarrow> (\<forall>p\<in>set (allPoints g). t < snd p)"
      and D: "\<forall>t. d < t \<longleftrightarrow> (\<forall>p\<in>set (allPoints g). snd p < t)"
      using extentOf_nonempty [OF ne] by blast
    have n: "isDrawable NorthPolar g \<longleftrightarrow> (\<forall>p \<in> set (allPoints g). 60 < snd p)"
      using B by (simp add: isDrawable_def getExtent_def e)
    have s: "isDrawable SouthPolar g \<longleftrightarrow> (\<forall>p \<in> set (allPoints g). snd p < - 60)"
      using D by (simp add: isDrawable_def getExtent_def e)
    have fin: "finite (snd ` set (allPoints g))" "snd ` set (allPoints g) \<noteq> {}" using ne by simp_all
    have mn: "60 < spec_minLatitude g \<longleftrightarrow> (\<forall>p \<in> set (allPoints g). 60 < snd p)"
      unfolding spec_minLatitude_def using Min_gr_iff [OF fin] by auto
    have mx: "spec_maxLatitude g < - 60 \<longleftrightarrow> (\<forall>p \<in> set (allPoints g). snd p < - 60)"
      unfolding spec_maxLatitude_def using Max_less_iff [OF fin] by auto
    show ?thesis using n s mn mx by blast
  qed
  show ?thesis using cyl pts gen by blast
qed

text \<open>The statement of C5 at a line from latitude 50 to latitude 70.\<close>

theorem isDrawable_whole_geometry_witness:
  "isDrawable Cylindrical (LineString [(0, 50), (0, 70)]) \<and>
   allPoints (LineString [(0, 50), (0, 70)]) \<noteq> [] \<and>
   \<not> isDrawable NorthPolar (LineString [(0, 50), (0, 70)]) \<and>
   \<not> (\<forall>p \<in> set (allPoints (LineString [(0, 50), (0, 70)])). 60 < snd p) \<and>
   isDrawable NorthPolar (Point (0, 61))"
  using isDrawable_whole_geometry [of "LineString [(0, 50), (0, 70)]" 0]
  by simp

text \<open>
  C5 as the specification states it fails for that line: its largest latitude, 70,
  exceeds 60, and it is not drawable under the north polar projection.
\<close>

theorem isDrawable_not_max_latitude:
  "\<not> (isDrawable NorthPolar (LineString [(0, 50), (0, 70)])
        \<longleftrightarrow> 60 < spec_maxLatitude (LineString [(0, 50), (0, 70)]))"
  by (simp add: isDrawable_def getExtent_def extentOf_def spec_maxLatitude_def)

subsection \<open>Warping\<close>

lemma upt16: "[0..<16] = [0,1,2,3,4,5,6,7,8,9,10,11,12,13,14,15::nat]"
  by (simp add: upt_rec)

lemma saturateEdge_points: "saturateEdge p q = spec_edgePoints p q"
  unfolding spec_edgePoints_def upt16
  by (simp add: saturateEdge_def Let_def spec_edgePoint_def field_simps)

lemma length_saturateEdge: "length (saturateEdge p q) = 16"
  by (simp add: saturateEdge_points spec_edgePoints_def)

lemma saturatePointArray_nonempty: "ps \<noteq> [] \<Longrightarrow> saturatePointArray ps \<noteq> []"
  by (induction ps rule: saturatePointArray.induct) simp_all

lemma hd_saturateEdge: "hd (saturateEdge p q) = p"
  by (simp add: saturateEdge_def Let_def)

lemma hd_saturatePointArray: "ps \<noteq> [] \<Longrightarrow> hd (saturatePointArray ps) = hd ps"
proof (induction ps rule: saturatePointArray.induct)
  case 1
  then show ?case by simp
next
  case (2 p)
  show ?case by simp
next
  case (3 p q rest)
  have "saturateEdge p q \<noteq> []" using length_saturateEdge [of p q] by auto
  then show ?case by (simp add: hd_append hd_saturateEdge)
qed

lemma last_saturatePointArray: "ps \<noteq> [] \<Longrightarrow> last (saturatePointArray ps) = last ps"
proof (induction ps rule: saturatePointArray.induct)
  case 1
  then show ?case by simp
next
  case (2 p)
  show ?case by simp
next
  case (3 p q rest)
  have ne: "saturatePointArray (q # rest) \<noteq> []" by (rule saturatePointArray_nonempty) simp
  have "last (saturatePointArray (p # q # rest)) = last (saturatePointArray (q # rest))"
    using ne by simp
  then show ?case using 3 by simp
qed

text \<open>A MULTILINESTRING is not warped: the call raises.\<close>

lemma warpWkt_multilinestring:
  "concat lines \<noteq> [] \<Longrightarrow> warpWkt (MultiLineString lines) = Inl Raised"
  by (simp add: warpWkt_def extractGeometryType_def)

text \<open>
  C10. For an array of at least two points \<^verbatim>\<open>saturatePointArray\<close> returns an array
  that starts with the first point of the input and ends with its last point. So
  \<^verbatim>\<open>warpWkt\<close> maps a polygon whose ring is closed (first point equal to last point) to
  a polygon whose ring is closed.
\<close>

theorem saturatePointArray_endpoints:
  assumes "2 \<le> length pointArray"
  shows "hd (saturatePointArray pointArray) = hd pointArray \<and>
         last (saturatePointArray pointArray) = last pointArray \<and>
         (hd pointArray = last pointArray \<longrightarrow>
            (\<exists>ring. warpWkt (Polygon pointArray) = Inr (Polygon ring) \<and> ring \<noteq> [] \<and> hd ring = last ring))"
proof -
  from assms have ne: "pointArray \<noteq> []" by auto
  have h: "hd (saturatePointArray pointArray) = hd pointArray" using ne by (rule hd_saturatePointArray)
  have l: "last (saturatePointArray pointArray) = last pointArray" using ne by (rule last_saturatePointArray)
  have w: "warpWkt (Polygon pointArray) =
             Inr (Polygon (if length pointArray \<le> 16 then saturatePointArray pointArray else pointArray))"
    using ne by (simp add: warpWkt_def extractGeometryType_def)
  have "\<exists>ring. warpWkt (Polygon pointArray) = Inr (Polygon ring) \<and> ring \<noteq> [] \<and> hd ring = last ring"
    if "hd pointArray = last pointArray"
    using that w h l ne saturatePointArray_nonempty [OF ne] by auto
  then show ?thesis using h l by blast
qed

text \<open>The statement of C10 at a closed ring of three coordinates.\<close>

theorem saturatePointArray_endpoints_witness:
  "2 \<le> length [(10, 10), (20, 10), (10, 10 :: real)] \<and>
   hd (saturatePointArray [(10, 10), (20, 10), (10, 10)]) = (10, 10) \<and>
   last (saturatePointArray [(10, 10), (20, 10), (10, 10)]) = (10, 10) \<and>
   (\<exists>ring. warpWkt (Polygon [(10, 10), (20, 10), (10, 10)]) = Inr (Polygon ring) \<and> ring \<noteq> [] \<and> hd ring = last ring)"
  using saturatePointArray_endpoints [of "[(10, 10), (20, 10), (10, 10)]"]
  by simp

text \<open>
  C8. A polygon with the four vertices \<open>a\<close>, \<open>b\<close>, \<open>c\<close>, \<open>d\<close> is written as the ring
  \<open>a, b, c, d, a\<close>. When no edge joins two equal points or two points on the
  meridians 0 and 360, \<^verbatim>\<open>warpWkt\<close> returns the ring of 4 x 16 = 64 vertices, sixteen
  for each edge: the start of the edge and the fifteen points at the fractions
  \<open>k/16\<close> of it, followed by the closing copy of \<open>a\<close>. A polygon or line string
  with more than sixteen coordinates is returned unchanged.
\<close>

theorem warpWkt_square_64:
  assumes "\<not> skipPoint a b" and "\<not> skipPoint b c" and "\<not> skipPoint c d" and "\<not> skipPoint d a"
    and "16 < length ring"
  shows "warpWkt (Polygon [a, b, c, d, a]) =
           Inr (Polygon ((spec_edgePoints a b @ spec_edgePoints b c @ spec_edgePoints c d @
                          spec_edgePoints d a) @ [a])) \<and>
         length (spec_edgePoints a b @ spec_edgePoints b c @ spec_edgePoints c d @
                 spec_edgePoints d a) = 64 \<and>
         hd (spec_edgePoints a b @ spec_edgePoints b c @ spec_edgePoints c d @
             spec_edgePoints d a) = a \<and>
         warpWkt (Polygon ring) = Inr (Polygon ring) \<and>
         warpWkt (LineString ring) = Inr (LineString ring)"
proof -
  have sq: "saturatePointArray [a, b, c, d, a] =
              (saturateEdge a b @ saturateEdge b c @ saturateEdge c d @ saturateEdge d a) @ [a]"
    using assms(1-4) by simp
  have w: "warpWkt (Polygon [a, b, c, d, a]) = Inr (Polygon (saturatePointArray [a, b, c, d, a]))"
    by (simp add: warpWkt_def extractGeometryType_def)
  have len: "length (spec_edgePoints a b @ spec_edgePoints b c @ spec_edgePoints c d @
                     spec_edgePoints d a) = 64"
    by (simp add: spec_edgePoints_def)
  have h: "hd (spec_edgePoints a b @ spec_edgePoints b c @ spec_edgePoints c d @
               spec_edgePoints d a) = a"
    by (simp add: spec_edgePoints_def upt16 spec_edgePoint_def)
  have dense: "warpWkt (Polygon ring) = Inr (Polygon ring) \<and>
               warpWkt (LineString ring) = Inr (LineString ring)"
    using assms(5) by (auto simp: warpWkt_def extractGeometryType_def)
  show ?thesis using w sq len h dense by (simp add: saturateEdge_points)
qed

text \<open>
  The statement of C8 at the square with corners (10, 10), (20, 10), (20, 20) and
  (10, 20), and at a line of seventeen coordinates.
\<close>

theorem warpWkt_square_64_witness:
  "\<not> skipPoint (10, 10) (20, 10) \<and> \<not> skipPoint (20, 10) (20, 20) \<and>
   \<not> skipPoint (20, 20) (10, 20) \<and> \<not> skipPoint (10, 20) (10, 10) \<and>
   16 < length (replicate 17 (5 :: real, 5 :: real)) \<and>
   warpWkt (Polygon [(10, 10), (20, 10), (20, 20), (10, 20), (10, 10)]) =
     Inr (Polygon ((spec_edgePoints (10, 10) (20, 10) @ spec_edgePoints (20, 10) (20, 20) @
                    spec_edgePoints (20, 20) (10, 20) @ spec_edgePoints (10, 20) (10, 10)) @ [(10, 10)])) \<and>
   warpWkt (LineString (replicate 17 (5, 5))) = Inr (LineString (replicate 17 (5, 5)))"
proof -
  have s: "\<not> skipPoint (10, 10) (20, 10)" "\<not> skipPoint (20, 10) (20, 20)"
    "\<not> skipPoint (20, 20) (10, 20)" "\<not> skipPoint (10, 20) (10, 10)"
    by (simp_all add: skipPoint_def)
  have l: "16 < length (replicate 17 (5 :: real, 5 :: real))" by simp
  show ?thesis using s l warpWkt_square_64 [OF s l] by simp
qed

subsection \<open>Polar stereographic round trip\<close>

lemma atan2_polar:
  assumes k: "0 < k" and lo: "- pi < \<alpha>" and hi: "\<alpha> \<le> pi"
  shows "atan2 (k * sin \<alpha>) (k * cos \<alpha>) = \<alpha>"
proof -
  have q: "k * sin \<alpha> / (k * cos \<alpha>) = tan \<alpha>" using k by (simp add: tan_def)
  consider (a) "\<alpha> < - (pi / 2)" | (b) "\<alpha> = - (pi / 2)" | (c) "- (pi / 2) < \<alpha>" "\<alpha> < pi / 2"
    | (d) "\<alpha> = pi / 2" | (e) "pi / 2 < \<alpha>" by linarith
  then show ?thesis
  proof cases
    case a
    have "0 < cos (\<alpha> + pi)" using a lo by (intro cos_gt_zero_pi) simp_all
    then have c: "cos \<alpha> < 0" by simp
    have "0 < sin (\<alpha> + pi)" using a lo by (intro sin_gt_zero) simp_all
    then have s: "sin \<alpha> < 0" by simp
    have "arctan (tan (\<alpha> + pi)) = \<alpha> + pi" using a lo by (intro arctan_tan) simp_all
    then have t: "arctan (tan \<alpha>) = \<alpha> + pi" by simp
    have kc: "k * cos \<alpha> < 0" using k c by (simp add: mult_pos_neg)
    have ks: "k * sin \<alpha> < 0" using k s by (simp add: mult_pos_neg)
    show ?thesis using kc ks t unfolding atan2_def q by simp
  next
    case b
    have cz: "cos \<alpha> = 0" and sz: "sin \<alpha> = - 1" unfolding b by simp_all
    show ?thesis unfolding atan2_def cz sz using k b by simp
  next
    case c
    have cpos: "0 < cos \<alpha>" using c by (intro cos_gt_zero_pi) simp_all
    have kc: "0 < k * cos \<alpha>" using k cpos by simp
    have "arctan (tan \<alpha>) = \<alpha>" using c by (intro arctan_tan) simp_all
    then show ?thesis using kc unfolding atan2_def q by simp
  next
    case d
    have cz: "cos \<alpha> = 0" and sz: "sin \<alpha> = 1" unfolding d by simp_all
    show ?thesis unfolding atan2_def cz sz using k d by simp
  next
    case e
    have "0 < cos (\<alpha> - pi)" using e hi by (intro cos_gt_zero_pi) simp_all
    then have c: "cos \<alpha> < 0" by (simp add: cos_diff)
    have s: "0 \<le> sin \<alpha>" using e hi pi_gt_zero by (intro sin_ge_zero) simp_all
    have "arctan (tan (\<alpha> - pi)) = \<alpha> - pi" using e hi by (intro arctan_tan) simp_all
    moreover have "tan (\<alpha> - pi) = tan \<alpha>" by (simp add: tan_def sin_diff cos_diff)
    ultimately have t: "arctan (tan \<alpha>) = \<alpha> - pi" by simp
    have kc: "k * cos \<alpha> < 0" using k c by (simp add: mult_pos_neg)
    have ks: "0 \<le> k * sin \<alpha>" using k s by simp
    show ?thesis using kc ks t unfolding atan2_def q by simp
  qed
qed











text \<open>
  Likewise at latitude -90 under the south polar projection.
\<close>

lemma south_pole_roundtrip:
  "transformPolarMetersToLatLon (transformLatLonToPolarMeters (lon, - 90) SouthPolar r) SouthPolar r
     = Some (0, - 90)"
  by (simp add: transformLatLonToPolarMeters_def transformPolarMetersToLatLon_def Let_def atan2_def)


subsection \<open>Splitting on the dateline\<close>



text \<open>
  A line that counts as crossing, such as the one from (350, 10) to (370, 20), gets
  past the guard of the LINESTRING branch, and the call raises.
\<close>

lemma line_350_370_crossing:
  "crossesDateline caxis (LineString [(350, 10), (370, 20)]) Cylindrical"
  by (simp add: crossesDateline_def extractGeometryType_def getExtent_def extentOf_def boundsRule_def)

lemma line_350_370_raises:
  "splitOnDateline caxis (LineString [(350, 10), (370, 20)]) Cylindrical = Inl Raised"
  using line_350_370_crossing by (simp add: splitOnDateline_def extractGeometryType_def)




lemma undangle_Polygon:
  "undangle (Polygon ring) = map_option Polygon (mapOption transformDanglers ring)"
  by (simp add: undangle_def)

lemma splitPolygon_350_10: "splitPolygon Cylindrical [(350, 10), (10, 10), (10, 20), (350, 20), (350, 10)]
   = Inr (MultiPolygon [[(350, 10), (360, 10), (360, 20), (350, 20), (350, 10)],
                        [(0, 10), (10, 10), (10, 20), (0, 20), (0, 10)]])"
  by (simp add: splitPolygon_def undangle_def transformDanglers_def danglers_up.simps danglers_down.simps
        initialSplitState_def alreadySplit_def jumps_def crossStep_def crossingLat_def pushPoint_def
        makeMultiPolygon_def Let_def)

lemma alreadySplit_jumps: "alreadySplit p q \<Longrightarrow> jumps p q"
  by (auto simp: alreadySplit_def jumps_def Let_def)

lemma splitLoop_noJumps:
  "noJumps ps \<Longrightarrow>
   \<exists>st'. splitLoop projection w i st ps = Inr st' \<and>
         poly st' = (poly st)(polyNum st := poly st (polyNum st) @ ps) \<and>
         polyNum st' = polyNum st \<and> hasNaN st' = hasNaN st \<and>
         datelineCrosses st' = datelineCrosses st"
proof (induction ps arbitrary: i st rule: noJumps.induct)
  case 1
  show ?case by simp
next
  case (2 p)
  show ?case by (auto simp add: Let_def pushPoint_def fun_eq_iff)
next
  case (3 p q rest)
  from 3(2) have nj: "\<not> jumps p q" and rest: "noJumps (q # rest)" by simp_all
  from nj have na: "\<not> alreadySplit p q" using alreadySplit_jumps by blast
  define st1 where "st1 = (if i = 0 then st\<lparr>polyRingPoint := (polyRingPoint st)(polyNum st \<mapsto> p)\<rparr> else st)"
  define st2 where "st2 = pushPoint st1 p"
  have step: "splitLoop projection w i st (p # q # rest) = splitLoop projection w (Suc i) st2 (q # rest)"
    using nj na by (simp add: Let_def st1_def st2_def)
  have p1: "poly st1 = poly st" "polyNum st1 = polyNum st" "hasNaN st1 = hasNaN st"
    "datelineCrosses st1 = datelineCrosses st"
    by (simp_all add: st1_def)
  have p2: "poly st2 = (poly st)(polyNum st := poly st (polyNum st) @ [p])" "polyNum st2 = polyNum st"
    "hasNaN st2 = hasNaN st" "datelineCrosses st2 = datelineCrosses st"
    by (simp_all add: st2_def pushPoint_def p1)
  obtain st' where r: "splitLoop projection w (Suc i) st2 (q # rest) = Inr st'"
    and a: "poly st' = (poly st2)(polyNum st2 := poly st2 (polyNum st2) @ (q # rest))"
    and b: "polyNum st' = polyNum st2" "hasNaN st' = hasNaN st2" "datelineCrosses st' = datelineCrosses st2"
    using 3(1) [OF rest, of "Suc i" st2] by blast
  have pl: "poly st' = (poly st)(polyNum st := poly st (polyNum st) @ (p # q # rest))"
    unfolding a p2 by (simp add: fun_eq_iff)
  have full: "splitLoop projection w i st (p # q # rest) = Inr st'"
    using step r by (simp only:)
  have "polyNum st' = polyNum st" "hasNaN st' = hasNaN st" "datelineCrosses st' = datelineCrosses st"
    using b p2 by simp_all
  with full pl show ?case by blast
qed

lemma splitPolygon_noJumps:
  assumes "undangle (Polygon ring) = Some (Polygon ring')" and "noJumps ring'"
  shows "splitPolygon projection ring = Inr (MultiPolygon [ring'])"
proof -
  obtain st' where r: "splitLoop projection (Polygon ring') 0 initialSplitState ring' = Inr st'"
    and a: "poly st' = (poly initialSplitState)(polyNum initialSplitState :=
                          poly initialSplitState (polyNum initialSplitState) @ ring')"
    and b: "hasNaN st' = hasNaN initialSplitState"
    using splitLoop_noJumps [OF assms(2), of projection "Polygon ring'" 0 initialSplitState] by blast
  have "poly st' 1 = ring'" "poly st' 2 = []" "\<not> hasNaN st'"
    unfolding a b by (simp_all add: initialSplitState_def)
  then have "makeMultiPolygon st' = Inr (MultiPolygon [ring'])"
    by (simp add: makeMultiPolygon_def)
  then show ?thesis using r assms(1) by (simp add: splitPolygon_def Let_def)
qed

text \<open>
  \<^verbatim>\<open>undangle\<close> returns for a ring whose longitudes are between \<open>-2\<^sup>6\<^sup>2\<close> and \<open>2\<^sup>6\<^sup>2\<close>,
  and returns the ring itself when they are between 0 and 360.
\<close>

lemma undangle_ring_returns:
  assumes "\<forall>p \<in> set ring. - (2 ^ 62) \<le> fst p \<and> fst p \<le> 2 ^ 62"
  shows "\<exists>ring'. undangle (Polygon ring) = Some (Polygon ring')"
proof -
  from undangle_returns [of "Polygon ring"] assms
  obtain g' where "undangle (Polygon ring) = Some g'" by auto
  then show ?thesis by (auto simp: undangle_Polygon)
qed

lemma undangle_ring_id:
  assumes "\<forall>p \<in> set ring. 0 \<le> fst p \<and> fst p \<le> 360"
  shows "undangle (Polygon ring) = Some (Polygon ring)"
proof -
  have b: "\<forall>p \<in> set ring. - (2 ^ 62) \<le> fst p \<and> fst p \<le> 2 ^ 62"
  proof
    fix p assume "p \<in> set ring"
    with assms have "0 \<le> fst p" "fst p \<le> 360" by auto
    then show "- (2 ^ 62) \<le> fst p \<and> fst p \<le> 2 ^ 62" by simp
  qed
  from undangle_ring_returns [OF b] obtain ring' where r: "undangle (Polygon ring) = Some (Polygon ring')"
    by blast
  note R = undangle_result [OF r]
  have "ring' = ring"
  proof (rule nth_equalityI)
    show "length ring' = length ring" using R by simp
  next
    fix i assume "i < length ring'"
    then have i: "i < length ring" using R by simp
    with R have "transformDanglers (ring ! i) = Some (ring' ! i)" by simp
    from transformDanglers_point [OF this] assms i show "ring' ! i = ring ! i" by simp
  qed
  with r show ?thesis by simp
qed

lemma inside_not_crossing:
  assumes ne: "ring \<noteq> []" and inside: "\<forall>p \<in> set ring. 0 \<le> fst p \<and> fst p \<le> 360"
  shows "\<not> boundsRule (extentOf ring)"
proof -
  obtain a b c d where e: "extentOf ring = Extent a b c d"
    and A: "\<forall>t. t < a \<longleftrightarrow> (\<forall>p\<in>set ring. t < fst p)"
    and C: "\<forall>t. c < t \<longleftrightarrow> (\<forall>p\<in>set ring. fst p < t)"
    using extentOf_nonempty [OF ne] by blast
  obtain p where p: "p \<in> set ring" using ne by (cases ring) auto
  have "\<not> a < 0"
  proof
    assume "a < 0"
    then obtain t where t: "a < t" "t < 0" using dense by blast
    with A have "\<not> (\<forall>p\<in>set ring. t < fst p)" by (metis less_asym)
    with inside t show False by (metis less_le_trans)
  qed
  moreover have "\<not> 360 < c"
  proof
    assume "360 < c"
    then obtain t where t: "360 < t" "t < c" using dense by blast
    with C have "\<not> (\<forall>p\<in>set ring. fst p < t)" by (metis less_asym)
    with inside t show False by (metis le_less_trans)
  qed
  moreover have "a \<le> c"
  proof (rule ccontr)
    assume "\<not> a \<le> c"
    then obtain t where t: "c < t" "t < a" using dense [of c a] by auto
    from t A C p have "t < fst p" "fst p < t" by blast+
    then show False by simp
  qed
  ultimately show ?thesis by (auto simp: boundsRule_def e Let_def)
qed

text \<open>
  C3, as the code has it. A LINESTRING for which \<^verbatim>\<open>crossesDateline\<close> is false is
  returned unchanged. The POLYGON branch does not ask \<^verbatim>\<open>crossesDateline\<close>: it
  undangles the ring and looks for consecutive vertices more than 180 degrees of
  longitude apart. When the undangled ring has no such pair, the result is that ring
  as the only child of a MULTIPOLYGON; when moreover every longitude of the ring lies
  in the closed interval from 0 to 360, the ring is its own undangled ring,
  \<^verbatim>\<open>crossesDateline\<close> is false and the ring is wrapped with no vertex added, removed
  or moved.
\<close>

theorem splitOnDateline_noncrossing:
  "(\<not> crossesDateline caxis (LineString line) Cylindrical \<longrightarrow>
      splitOnDateline caxis (LineString line) Cylindrical = Inr (LineString line)) \<and>
   (ring \<noteq> [] \<and> undangle (Polygon ring) = Some (Polygon ring') \<and> noJumps ring' \<longrightarrow>
      splitOnDateline caxis (Polygon ring) Cylindrical = Inr (MultiPolygon [ring'])) \<and>
   (ring \<noteq> [] \<and> noJumps ring \<and> (\<forall>p \<in> set ring. 0 \<le> fst p \<and> fst p \<le> 360) \<longrightarrow>
      \<not> crossesDateline caxis (Polygon ring) Cylindrical \<and>
      splitOnDateline caxis (Polygon ring) Cylindrical = Inr (MultiPolygon [ring]))"
proof -
  have l: "splitOnDateline caxis (LineString line) Cylindrical = Inr (LineString line)"
    if "\<not> crossesDateline caxis (LineString line) Cylindrical"
    using that by (simp add: splitOnDateline_def extractGeometryType_def)
  have s: "splitOnDateline caxis (Polygon ring) Cylindrical = Inr (MultiPolygon [ring'])"
    if "ring \<noteq> []" "undangle (Polygon ring) = Some (Polygon ring')" "noJumps ring'" for ring'
    using that(1) splitPolygon_noJumps [OF that(2,3)]
    by (simp add: splitOnDateline_def extractGeometryType_def)
  have i: "\<not> crossesDateline caxis (Polygon ring) Cylindrical \<and>
      splitOnDateline caxis (Polygon ring) Cylindrical = Inr (MultiPolygon [ring])"
    if ne: "ring \<noteq> []" and nj: "noJumps ring" and ins: "\<forall>p \<in> set ring. 0 \<le> fst p \<and> fst p \<le> 360"
  proof -
    have "\<not> crossesDateline caxis (Polygon ring) Cylindrical"
      using ne inside_not_crossing [OF ne ins]
      by (simp add: crossesDateline_def extractGeometryType_def getExtent_def)
    moreover have "splitOnDateline caxis (Polygon ring) Cylindrical = Inr (MultiPolygon [ring])"
      using s [OF ne undangle_ring_id [OF ins] nj] .
    ultimately show ?thesis by blast
  qed
  show ?thesis using l s i by blast
qed

text \<open>
  The statement of C3 at a line from (10, 10) to (20, 20) and at a triangle inside
  the interval.
\<close>

theorem splitOnDateline_noncrossing_witness:
  "\<not> crossesDateline 3376 (LineString [(10, 10), (20, 20)]) Cylindrical \<and>
   splitOnDateline 3376 (LineString [(10, 10), (20, 20)]) Cylindrical
     = Inr (LineString [(10, 10), (20, 20)]) \<and>
   undangle (Polygon [(10, 10), (20, 10), (20, 20), (10, 10)])
     = Some (Polygon [(10, 10), (20, 10), (20, 20), (10, 10)]) \<and>
   noJumps [(10, 10), (20, 10), (20, 20), (10, 10)] \<and>
   \<not> crossesDateline 3376 (Polygon [(10, 10), (20, 10), (20, 20), (10, 10)]) Cylindrical \<and>
   splitOnDateline 3376 (Polygon [(10, 10), (20, 10), (20, 20), (10, 10)]) Cylindrical
     = Inr (MultiPolygon [[(10, 10), (20, 10), (20, 20), (10, 10)]])"
proof -
  have a: "\<not> crossesDateline 3376 (LineString [(10, 10), (20, 20)]) Cylindrical"
    by (simp add: crossesDateline_def extractGeometryType_def getExtent_def extentOf_def boundsRule_def)
  have b: "noJumps [(10, 10), (20, 10), (20, 20), (10, 10)]" by (simp add: jumps_def)
  have c: "\<forall>p \<in> set [(10, 10), (20, 10), (20, 20), (10 :: real, 10 :: real)]. 0 \<le> fst p \<and> fst p \<le> 360"
    by simp
  have u: "undangle (Polygon [(10, 10), (20, 10), (20, 20), (10, 10)])
     = Some (Polygon [(10, 10), (20, 10), (20, 20), (10, 10)])"
    by (simp add: undangle_def transformDanglers_def danglers_up.simps danglers_down.simps)
  show ?thesis
    using a b c u
      splitOnDateline_noncrossing [of 3376 "[(10, 10), (20, 20)]"
        "[(10, 10), (20, 10), (20, 20), (10, 10)]" "[(10, 10), (20, 10), (20, 20), (10, 10)]"]
    by simp
qed

text \<open>
  C3 as the specification states it fails for the rectangle with corners (350, 10),
  (10, 10), (10, 20) and (350, 20): \<^verbatim>\<open>crossesDateline\<close> is false for it, and
  \<^verbatim>\<open>splitOnDateline\<close> returns two polygons with four added vertices on the seam.
\<close>

theorem splitOnDateline_splits_noncrossing_polygon:
  "\<not> crossesDateline 3376
        (Polygon [(350, 10), (10, 10), (10, 20), (350, 20), (350, 10)]) Cylindrical \<and>
   splitOnDateline 3376
        (Polygon [(350, 10), (10, 10), (10, 20), (350, 20), (350, 10)]) Cylindrical
     = Inr (MultiPolygon [[(350, 10), (360, 10), (360, 20), (350, 20), (350, 10)],
                          [(0, 10), (10, 10), (10, 20), (0, 20), (0, 10)]]) \<and>
   \<not> spec_unchangedOrWrapped (Polygon [(350, 10), (10, 10), (10, 20), (350, 20), (350, 10)])
        (splitOnDateline 3376
           (Polygon [(350, 10), (10, 10), (10, 20), (350, 20), (350, 10)]) Cylindrical)"
proof -
  have a: "\<not> crossesDateline 3376
        (Polygon [(350, 10), (10, 10), (10, 20), (350, 20), (350, 10)]) Cylindrical"
    by (simp add: crossesDateline_def extractGeometryType_def getExtent_def extentOf_def boundsRule_def)
  have b: "splitOnDateline 3376
        (Polygon [(350, 10), (10, 10), (10, 20), (350, 20), (350, 10)]) Cylindrical
     = Inr (MultiPolygon [[(350, 10), (360, 10), (360, 20), (350, 20), (350, 10)],
                          [(0, 10), (10, 10), (10, 20), (0, 20), (0, 10)]])"
    by (simp add: splitOnDateline_def extractGeometryType_def splitPolygon_350_10)
  show ?thesis using a unfolding b by (simp add: spec_unchangedOrWrapped_def)
qed

subsection \<open>The search geometry of a drawn vector\<close>

lemma draw_search:
  "draw caxis proj g attrs col vid cen shift = Inr vs \<Longrightarrow>
   map_option Wkt (searchRule proj g) = Some (searchWKT vs)"
  unfolding draw_def Let_def searchRule_def
  by (auto split: if_splits sum.splits failure.splits prod.splits option.splits)

lemma undangle_lons:
  assumes "undangle g = Some s"
  shows "list_all lonInClosedRange (allPoints s)"
proof -
  note R = undangle_result [OF assms]
  have "lonInClosedRange (allPoints s ! i)" if "i < length (allPoints s)" for i
  proof -
    from that R have "transformDanglers (allPoints g ! i) = Some (allPoints s ! i)" by simp
    from transformDanglers_point [OF this] show ?thesis by (simp add: lonInClosedRange_def)
  qed
  then show ?thesis by (simp add: list_all_length)
qed

lemma drawAndStore_draw:
  "drawAndStore caxis proj store g attrs col vid cen shift = Inr (vs, store') \<Longrightarrow>
   \<exists>vs0. draw caxis proj g attrs col vid cen shift = Inr vs0 \<and>
         vs = vs0\<lparr>index := Some (length store)\<rparr> \<and> store' = store @ [Some vs]"
  unfolding drawAndStore_def Let_def by (auto split: sum.splits)

lemma redraw_search:
  "redraw caxis proj store = Inr store' \<Longrightarrow> list_all2 (redrawnFrom proj) store store'"
proof (induction caxis proj store arbitrary: store' rule: redraw.induct)
  case (1 caxis proj)
  then show ?case by simp
next
  case (2 caxis proj rest)
  then show ?case by (auto simp: redrawnFrom_def split: sum.splits)
next
  case (3 caxis proj v rest)
  from 3(3) obtain cg sg where w: "drawWKT v = Wkt cg" "searchWKT v = Wkt sg"
    by (auto split: wkt.splits)
  show ?case
  proof (cases "isDrawable proj cg")
    case True
    with 3(3) w obtain v' rest' where d: "draw caxis proj sg (attributes v) (color v) (ident v) (center v)
                 (datelineShiftFlag v) = Inr v'"
      and r: "redraw caxis proj rest = Inr rest'" and s: "store' = Some v' # rest'"
      by (auto split: sum.splits)
    have "list_all2 (redrawnFrom proj) rest rest'" using 3(1) [OF refl w True d r] .
    moreover have "redrawnFrom proj (Some v) (Some v')"
      using draw_search [OF d] w by (simp add: redrawnFrom_def)
    ultimately show ?thesis using s by simp
  next
    case False
    with 3(3) w obtain rest' where r: "redraw caxis proj rest = Inr rest'" and s: "store' = Some v # rest'"
      by (auto split: sum.splits)
    have "list_all2 (redrawnFrom proj) rest rest'" using 3(2) [OF refl w False r] .
    moreover have "redrawnFrom proj (Some v) (Some v)" by (simp add: redrawnFrom_def)
    ultimately show ?thesis using s by simp
  qed
qed

text \<open>
  C6, as the code has it. After a \<^verbatim>\<open>draw\<close> that returns, and after the
  \<^verbatim>\<open>drawAndStore\<close> built on it, \<^verbatim>\<open>searchWKT\<close> is the search geometry of the input.
  Under the cylindrical projection the input is undangled only when its extent is
  wider than 360 or lies wholly above 360 or wholly below 0, and then every longitude
  of \<^verbatim>\<open>searchWKT\<close> lies in the closed interval from 0 to 360; otherwise \<^verbatim>\<open>searchWKT\<close>
  is the input unchanged. Under a polar projection \<^verbatim>\<open>searchWKT\<close> is the input rounded
  to two decimals. \<^verbatim>\<open>drawAndStore\<close> appends the state to the stored vectors, and
  \<^verbatim>\<open>redraw\<close> keeps each entry or replaces it by the state drawn from its
  \<^verbatim>\<open>searchWKT\<close>.
\<close>

theorem draw_searchWKT:
  "(draw caxis proj g attrs col vid cen shift = Inr vs \<longrightarrow>
      (\<exists>s. searchRule proj g = Some s \<and>
         searchWKT vs = Wkt s \<and>
         (proj = Cylindrical \<and> needsUndangle (getExtent g) \<longrightarrow>
            undangle g = Some s \<and> list_all lonInClosedRange (allPoints s)) \<and>
         (proj = Cylindrical \<and> \<not> needsUndangle (getExtent g) \<longrightarrow> s = g) \<and>
         (proj \<noteq> Cylindrical \<longrightarrow> s = decimals2 g) \<and>
         drawAndStore caxis proj store g attrs col vid cen shift
           = Inr (vs\<lparr>index := Some (length store)\<rparr>, store @ [Some (vs\<lparr>index := Some (length store)\<rparr>)]) \<and>
         searchWKT (vs\<lparr>index := Some (length store)\<rparr>) = Wkt s)) \<and>
   (redraw caxis proj store = Inr store' \<longrightarrow> list_all2 (redrawnFrom proj) store store')"
proof -
  have a: "\<exists>s. searchRule proj g = Some s \<and>
         searchWKT vs = Wkt s \<and>
         (proj = Cylindrical \<and> needsUndangle (getExtent g) \<longrightarrow>
            undangle g = Some s \<and> list_all lonInClosedRange (allPoints s)) \<and>
         (proj = Cylindrical \<and> \<not> needsUndangle (getExtent g) \<longrightarrow> s = g) \<and>
         (proj \<noteq> Cylindrical \<longrightarrow> s = decimals2 g) \<and>
         drawAndStore caxis proj store g attrs col vid cen shift
           = Inr (vs\<lparr>index := Some (length store)\<rparr>, store @ [Some (vs\<lparr>index := Some (length store)\<rparr>)]) \<and>
         searchWKT (vs\<lparr>index := Some (length store)\<rparr>) = Wkt s"
    if d: "draw caxis proj g attrs col vid cen shift = Inr vs"
  proof -
    from draw_search [OF d] obtain s where s: "searchRule proj g = Some s" "searchWKT vs = Wkt s"
      by auto
    have u: "undangle g = Some s \<and> list_all lonInClosedRange (allPoints s)"
      if "proj = Cylindrical" "needsUndangle (getExtent g)"
    proof -
      from s(1) that have "undangle g = Some s" by (simp add: searchRule_def)
      with undangle_lons [OF this] show ?thesis by simp
    qed
    have n: "s = g" if "proj = Cylindrical" "\<not> needsUndangle (getExtent g)"
      using s(1) that by (simp add: searchRule_def)
    have p: "s = decimals2 g" if "proj \<noteq> Cylindrical"
      using s(1) that by (simp add: searchRule_def)
    have b: "drawAndStore caxis proj store g attrs col vid cen shift
        = Inr (vs\<lparr>index := Some (length store)\<rparr>, store @ [Some (vs\<lparr>index := Some (length store)\<rparr>)])"
      using d by (simp add: drawAndStore_def Let_def)
    have "searchWKT (vs\<lparr>index := Some (length store)\<rparr>) = Wkt s" using s(2) by simp
    with s u n p b show ?thesis by blast
  qed
  have r: "list_all2 (redrawnFrom proj) store store'" if "redraw caxis proj store = Inr store'"
    using that by (rule redraw_search)
  show ?thesis using a r by blast
qed

lemma draw_point_370:
  "draw 3376 Cylindrical (Point (370, 10)) [] ''red'' ''p1'' False False
     = Inr \<lparr>drawWKT = Wkt (Point (370, 10)), searchWKT = Wkt (Point (10, 10)), splitWKT = NoWkt,
            color = ''red'', ident = ''p1'', center = False, datelineShiftFlag = False,
            attributes = [], index = None\<rparr>"
  by (simp add: draw_def Let_def needsUndangle_def getExtent_def extentOf_def undangle_def
        transformDanglers_def danglers_up.simps danglers_down.simps minus360_def crossesDateline_def
        extractGeometryType_def)

text \<open>The statement of C6 at the point (370, 10) under the cylindrical projection.\<close>

theorem draw_searchWKT_witness:
  "draw 3376 Cylindrical (Point (370, 10)) [] ''red'' ''p1'' False False
     = Inr \<lparr>drawWKT = Wkt (Point (370, 10)), searchWKT = Wkt (Point (10, 10)), splitWKT = NoWkt,
            color = ''red'', ident = ''p1'', center = False, datelineShiftFlag = False,
            attributes = [], index = None\<rparr> \<and>
   searchRule Cylindrical (Point (370, 10)) = Some (Point (10, 10)) \<and>
   needsUndangle (getExtent (Point (370, 10))) \<and>
   undangle (Point (370, 10)) = Some (Point (10, 10)) \<and>
   list_all lonInClosedRange (allPoints (Point (10, 10))) \<and>
   redraw 3376 Cylindrical [] = Inr [] \<and>
   list_all2 (redrawnFrom Cylindrical) [] []"
proof -
  have n: "needsUndangle (getExtent (Point (370, 10)))"
    by (simp add: needsUndangle_def getExtent_def extentOf_def)
  have r: "redraw 3376 Cylindrical [] = Inr []" by simp
  show ?thesis
    using n r draw_point_370
      draw_searchWKT [of 3376 Cylindrical "Point (370, 10)" "[]" "''red''" "''p1''" False False
        "\<lparr>drawWKT = Wkt (Point (370, 10)), searchWKT = Wkt (Point (10, 10)), splitWKT = NoWkt,
            color = ''red'', ident = ''p1'', center = False, datelineShiftFlag = False,
            attributes = [], index = None\<rparr>" "[]" "[]"]
    by (simp add: searchRule_def undangle_def transformDanglers_def danglers_up.simps
          danglers_down.simps minus360_def lonInClosedRange_def)
qed

lemma draw_polygon_350_370:
  "map_sum id searchWKT
     (draw 3376 Cylindrical
        (Polygon [(350, 10), (370, 10), (370, 20), (350, 20), (350, 10)]) [] ''red'' ''p1'' False False)
     = Inr (Wkt (Polygon [(350, 10), (370, 10), (370, 20), (350, 20), (350, 10)]))"
proof -
  have n: "\<not> needsUndangle (getExtent (Polygon [(350, 10), (370, 10), (370, 20), (350, 20), (350, 10)]))"
    by (simp add: needsUndangle_def getExtent_def extentOf_def)
  have c: "crossesDateline 3376 (Polygon [(350, 10), (370, 10), (370, 20), (350, 20), (350, 10)]) Cylindrical"
    by (simp add: crossesDateline_def extractGeometryType_def getExtent_def extentOf_def boundsRule_def)
  have s: "splitPolygon Cylindrical [(350, 10), (370, 10), (370, 20), (350, 20), (350, 10)]
   = Inr (MultiPolygon [[(350, 10), (360, 10), (360, 20), (350, 20), (350, 10)],
                        [(0, 10), (10, 10), (10, 20), (0, 20), (0, 10)]])"
    by (simp add: splitPolygon_def undangle_def transformDanglers_def danglers_up.simps danglers_down.simps
        minus360_def initialSplitState_def alreadySplit_def jumps_def crossStep_def crossingLat_def
        pushPoint_def makeMultiPolygon_def Let_def)
  show ?thesis
    using n c by (simp add: draw_def Let_def splitOnDateline_def extractGeometryType_def s)
qed

text \<open>
  C6 as the specification states it fails for a rectangle that straddles the seam,
  from longitude 350 to 370: its extent is neither wider than 360 nor wholly outside
  the interval, it is not undangled, and \<^verbatim>\<open>searchWKT\<close> keeps the longitude 370.
\<close>

theorem draw_searchWKT_keeps_370:
  "map_sum id searchWKT
     (draw 3376 Cylindrical
        (Polygon [(350, 10), (370, 10), (370, 20), (350, 20), (350, 10)]) [] ''red'' ''p1'' False False)
     = Inr (Wkt (Polygon [(350, 10), (370, 10), (370, 20), (350, 20), (350, 10)])) \<and>
   \<not> list_all spec_lon_canonical
        (allPoints (Polygon [(350, 10), (370, 10), (370, 20), (350, 20), (350, 10)]))"
  using draw_polygon_350_370 by (simp add: spec_lon_canonical_def)

subsection \<open>Great-circle distance\<close>

lemma vincentyLoop_bound:
  "vincentyLoop f L sinU1 cosU1 sinU2 cosU2 lambda0 limit n = Some e \<Longrightarrow> 0 < limit \<Longrightarrow>
   n < iterations e \<and> iterations e + iterLimit e \<le> n + limit + (if iterLimit e = 0 then 0 else 1) \<and>
   (iterLimit e = 0 \<or> (case lambda (vars e) of None \<Rightarrow> True | Some l \<Rightarrow> \<bar>l - lambdaP e\<bar> \<le> 1 / 10 ^ 12))"
proof (induction f L sinU1 cosU1 sinU2 cosU2 lambda0 limit n rule: vincentyLoop.induct)
  case (1 f L sinU1 cosU1 sinU2 cosU2 lambda0 limit n)
  from 1(2) obtain v where v: "vincentyBody f L sinU1 cosU1 sinU2 cosU2 lambda0 = Some v"
    by (subst (asm) vincentyLoop.simps) (auto split: option.splits)
  show ?case
  proof (cases "lambda v")
    case None
    with 1(2) v have "e = \<lparr>vars = v, lambdaP = lambda0, iterLimit = limit, iterations = Suc n\<rparr>"
      by (subst (asm) vincentyLoop.simps) simp
    then show ?thesis using 1(3) None by simp
  next
    case (Some l)
    show ?thesis
    proof (cases "\<bar>l - lambda0\<bar> > 1 / 10 ^ 12")
      case False
      with 1(2) v Some have "e = \<lparr>vars = v, lambdaP = lambda0, iterLimit = limit, iterations = Suc n\<rparr>"
        by (subst (asm) vincentyLoop.simps) simp
      then show ?thesis using 1(3) Some False by simp
    next
      case True
      show ?thesis
      proof (cases "limit - 1 > 0")
        case False
        with 1(2) v Some True have "e = \<lparr>vars = v, lambdaP = lambda0, iterLimit = limit - 1, iterations = Suc n\<rparr>"
          by (subst (asm) vincentyLoop.simps) simp
        then show ?thesis using 1(3) False by simp
      next
        case lim: True
        with 1(2) v Some True have r: "vincentyLoop f L sinU1 cosU1 sinU2 cosU2 l (limit - 1) (Suc n) = Some e"
          by (subst (asm) vincentyLoop.simps) simp
        have ih: "Suc n < iterations e \<and>
           iterations e + iterLimit e \<le> Suc n + (limit - 1) + (if iterLimit e = 0 then 0 else 1) \<and>
           (iterLimit e = 0 \<or> (case lambda (vars e) of None \<Rightarrow> True | Some l \<Rightarrow> \<bar>l - lambdaP e\<bar> \<le> 1 / 10 ^ 12))"
          using 1(1) [OF v Some True lim r lim] .
        then show ?thesis using lim by auto
      qed
    qed
  qed
qed


lemma vincentyRun_first_pass:
  assumes "vincentyRun lat1 lon1 lat2 lon2 = Some e"
  shows "iterations e = 1 \<and> iterLimit e = 100"
proof -
  let ?L = "toRad (lon2 - lon1)"
  let ?s1 = "sin (reducedLatitude 0 lat1)" and ?c1 = "cos (reducedLatitude 0 lat1)"
  let ?s2 = "sin (reducedLatitude 0 lat2)" and ?c2 = "cos (reducedLatitude 0 lat2)"
  from assms have run: "vincentyLoop 0 ?L ?s1 ?c1 ?s2 ?c2 ?L 100 0 = Some e"
    by (simp add: vincentyRun_def Let_def)
  then obtain v where v: "vincentyBody 0 ?L ?s1 ?c1 ?s2 ?c2 ?L = Some v"
    by (subst (asm) vincentyLoop.simps) (auto split: option.splits)
  have lam: "lambda v = None \<or> lambda v = Some ?L"
    using v by (auto simp: vincentyBody_def Let_def split: if_splits option.splits)
  from lam show ?thesis
  proof
    assume "lambda v = None"
    with run v have "e = \<lparr>vars = v, lambdaP = ?L, iterLimit = 100, iterations = Suc 0\<rparr>"
      by (subst (asm) vincentyLoop.simps) simp
    then show ?thesis by simp
  next
    assume "lambda v = Some ?L"
    with run v have "e = \<lparr>vars = v, lambdaP = ?L, iterLimit = 100, iterations = Suc 0\<rparr>"
      by (subst (asm) vincentyLoop.simps) simp
    then show ?thesis by simp
  qed
qed

text \<open>
  C9. \<^verbatim>\<open>LatLonToKM\<close> returns 0 for coincident points from inside the loop. Otherwise
  the loop makes at least one and at most 100 passes; when it leaves with
  \<^verbatim>\<open>iterLimit\<close> at 0 the result is \<^verbatim>\<open>NaN\<close>, and whenever the result is a number of
  kilometres the last two values of \<^verbatim>\<open>lambda\<close> differ by at most \<open>10\<^sup>-\<^sup>1\<^sup>2\<close>. No
  branch of the function raises. With the flattening fixed at 0 the loop leaves
  after its first pass.
\<close>

theorem LatLonToKM_iteration_budget:
  "(vincentyRun lat1 lon1 lat2 lon2 = None \<longrightarrow>
      LatLonToKM lat1 lon1 lat2 lon2 aaxisradius caxisradius = Km 0) \<and>
   (\<forall>e. vincentyRun lat1 lon1 lat2 lon2 = Some e \<longrightarrow>
      1 \<le> iterations e \<and> iterations e \<le> 100 \<and>
      (iterLimit e = 0 \<longrightarrow> LatLonToKM lat1 lon1 lat2 lon2 aaxisradius caxisradius = NaN) \<and>
      (\<forall>s. LatLonToKM lat1 lon1 lat2 lon2 aaxisradius caxisradius = Km s \<longrightarrow>
           (\<exists>l. lambda (vars e) = Some l \<and> \<bar>l - lambdaP e\<bar> \<le> 1 / 10 ^ 12)) \<and>
      iterations e = 1)"
proof -
  have none: "LatLonToKM lat1 lon1 lat2 lon2 aaxisradius caxisradius = Km 0"
    if "vincentyRun lat1 lon1 lat2 lon2 = None"
    using that by (simp add: LatLonToKM_def)
  have some: "1 \<le> iterations e \<and> iterations e \<le> 100 \<and>
      (iterLimit e = 0 \<longrightarrow> LatLonToKM lat1 lon1 lat2 lon2 aaxisradius caxisradius = NaN) \<and>
      (\<forall>s. LatLonToKM lat1 lon1 lat2 lon2 aaxisradius caxisradius = Km s \<longrightarrow>
           (\<exists>l. lambda (vars e) = Some l \<and> \<bar>l - lambdaP e\<bar> \<le> 1 / 10 ^ 12)) \<and>
      iterations e = 1"
    if run: "vincentyRun lat1 lon1 lat2 lon2 = Some e" for e
  proof -
    from run have loop: "vincentyLoop 0 (toRad (lon2 - lon1))
        (sin (reducedLatitude 0 lat1)) (cos (reducedLatitude 0 lat1))
        (sin (reducedLatitude 0 lat2)) (cos (reducedLatitude 0 lat2))
        (toRad (lon2 - lon1)) 100 0 = Some e"
      by (simp add: vincentyRun_def Let_def)
    have b: "0 < iterations e"
      "iterations e + iterLimit e \<le> 0 + 100 + (if iterLimit e = 0 then 0 else 1)"
      "iterLimit e = 0 \<or> (case lambda (vars e) of None \<Rightarrow> True | Some l \<Rightarrow> \<bar>l - lambdaP e\<bar> \<le> 1 / 10 ^ 12)"
      using vincentyLoop_bound [OF loop] by simp_all
    have i1: "1 \<le> iterations e" using b(1) by simp
    have i2: "iterations e \<le> 100" using b(2) by (cases "iterLimit e = 0") simp_all
    have n: "LatLonToKM lat1 lon1 lat2 lon2 aaxisradius caxisradius = NaN" if "iterLimit e = 0"
      using that run by (simp add: LatLonToKM_def)
    have c: "\<exists>l. lambda (vars e) = Some l \<and> \<bar>l - lambdaP e\<bar> \<le> 1 / 10 ^ 12"
      if k: "LatLonToKM lat1 lon1 lat2 lon2 aaxisradius caxisradius = Km s" for s
    proof -
      from k run have nz: "iterLimit e \<noteq> 0"
        by (auto simp: LatLonToKM_def split: if_splits)
      from k run nz obtain l where l: "lambda (vars e) = Some l"
        by (auto simp: LatLonToKM_def Let_def split: if_splits option.splits)
      with b(3) nz show ?thesis by simp
    qed
    show ?thesis using i1 i2 n c vincentyRun_first_pass [OF run] by blast
  qed
  show ?thesis using none some by blast
qed

lemma run_equator:
  "vincentyRun 0 0 0 1 = Some \<lparr>vars = \<lparr>sinSigma = sin (pi / 180), cosSigma = cos (pi / 180),
        sigma = pi / 180, cosSqAlpha = 0, cos2SigmaM = Some 0, lambda = Some (pi / 180)\<rparr>,
      lambdaP = pi / 180, iterLimit = 100, iterations = 1\<rparr>"
proof -
  have s: "0 < sin (pi / 180)" by (rule sin_gt_zero) (simp_all add: pi_gt_zero)
  have at: "atan2 (sin (pi / 180)) (cos (pi / 180)) = pi / 180"
    using atan2_polar [of 1 "pi / 180"] pi_gt_zero by simp
  have r: "reducedLatitude 0 0 = 0" by (simp add: reducedLatitude_def toRad_def)
  have body: "vincentyBody 0 (pi / 180) 0 1 0 1 (pi / 180) =
     Some \<lparr>sinSigma = sin (pi / 180), cosSigma = cos (pi / 180),
        sigma = pi / 180, cosSqAlpha = 0, cos2SigmaM = Some 0, lambda = Some (pi / 180)\<rparr>"
    using s by (simp add: vincentyBody_def Let_def at)
  show ?thesis
    by (simp add: vincentyRun_def Let_def r toRad_def vincentyLoop.simps [of 0 "pi / 180" 0 1 0 1 "pi / 180" 100 0] body)
qed


lemma run_coincident: "vincentyRun 0 0 0 0 = None"
  by (simp add: vincentyRun_def Let_def reducedLatitude_def toRad_def
        vincentyLoop.simps [of 0 0 0 1 0 1 0 100 0] vincentyBody_def)

text \<open>
  The statement of C9 at two coincident points and at two points of the equator one
  degree apart, with the radii 3396.2 km and 3376.2 km.
\<close>

theorem LatLonToKM_iteration_budget_witness:
  "vincentyRun 0 0 0 0 = None \<and>
   LatLonToKM 0 0 0 0 3396.2 3376.2 = Km 0 \<and>
   vincentyRun 0 0 0 1 = Some \<lparr>vars = \<lparr>sinSigma = sin (pi / 180), cosSigma = cos (pi / 180),
        sigma = pi / 180, cosSqAlpha = 0, cos2SigmaM = Some 0, lambda = Some (pi / 180)\<rparr>,
      lambdaP = pi / 180, iterLimit = 100, iterations = 1\<rparr> \<and>
   LatLonToKM 0 0 0 1 3396.2 3376.2 = Km (toFixed3 (3376.2 * (pi / 180)))"
proof -
  have k: "LatLonToKM 0 0 0 1 3396.2 3376.2 = Km (toFixed3 (3376.2 * (pi / 180)))"
    by (simp add: LatLonToKM_def run_equator Let_def)
  show ?thesis
    using run_coincident run_equator k
      LatLonToKM_iteration_budget [of 0 0 0 0 "3396.2" "3376.2"]
      LatLonToKM_iteration_budget [of 0 0 0 1 "3396.2" "3376.2"]
    by simp
qed

end
